theory Spec2Isabelle
  imports
    Complex_Main
    "HOL-Library.Log_Nat"
    "HOL-Library.Multiset"
    "HOL-Library.Sublist"
    "HOL-Library.Char_ord"
    "HOL-Library.List_Lexorder"
begin

section \<open>JavaScript strings and numbers\<close>

text \<open>
  A JavaScript string is modelled as a \<^typ>\<open>string\<close>: a sequence of code units below 256
  (ASCII and the Latin-1 supplement). \<open>isSpace\<close> is the white space of \<open>String.prototype.trim\<close>
  and of the regular expression class \<open>\s\<close> in that range: TAB, LF, VT, FF, CR, SP and NBSP.
\<close>

definition isSpace :: "char \<Rightarrow> bool" where
  "isSpace c = (of_char c \<in> {9, 10, 11, 12, 13, 32, 160 :: nat})"

definition lowerChar :: "char \<Rightarrow> char" where
  "lowerChar c =
     (let n = of_char c :: nat
      in if (65 \<le> n \<and> n \<le> 90) \<or> (192 \<le> n \<and> n \<le> 222 \<and> n \<noteq> 215)
         then char_of (n + 32) else c)"

definition toLowerCase :: "string \<Rightarrow> string" where
  "toLowerCase s = map lowerChar s"

definition trim :: "string \<Rightarrow> string" where
  "trim s = rev (dropWhile isSpace (rev (dropWhile isSpace s)))"

text \<open>\<open>occursIn p s\<close>: the text \<open>p\<close> occurs in \<open>s\<close>, as \<open>/p/.test(s)\<close> for a literal \<open>p\<close>.\<close>

fun occursIn :: "string \<Rightarrow> string \<Rightarrow> bool" where
  "occursIn p [] = (p = [])"
| "occursIn p (c # cs) = (prefix p (c # cs) \<or> occursIn p cs)"

text \<open>\<open>/(p1|p2|...)/.test(s)\<close> for literal alternatives.\<close>

definition testAny :: "string list \<Rightarrow> string \<Rightarrow> bool" where
  "testAny ps s = list_ex (\<lambda>p. occursIn p s) ps"

text \<open>\<open>Array.from(new Set(xs))\<close>: a Set iterates in insertion order, so the first
  occurrence of each element stays and later ones are dropped.\<close>

fun setAdd :: "'a list \<Rightarrow> 'a \<Rightarrow> 'a list" where
  "setAdd acc x = (if x \<in> set acc then acc else acc @ [x])"

definition arrayFromSet :: "'a list \<Rightarrow> 'a list" where
  "arrayFromSet xs = foldl setAdd [] xs"

text \<open>
  \<open>Array.prototype.sort(cmp)\<close> is stable; it is modelled as insertion sort, which gives
  the one stable result whenever \<open>cmp\<close> is a consistent comparator. An element goes in
  front of the first element it does not compare greater than.
\<close>

fun insertBy :: "('a \<Rightarrow> 'a \<Rightarrow> int) \<Rightarrow> 'a \<Rightarrow> 'a list \<Rightarrow> 'a list" where
  "insertBy cmp x [] = [x]"
| "insertBy cmp x (y # ys) =
     (if cmp x y \<le> 0 then x # y # ys else y # insertBy cmp x ys)"

definition sortBy :: "('a \<Rightarrow> 'a \<Rightarrow> int) \<Rightarrow> 'a list \<Rightarrow> 'a list" where
  "sortBy cmp xs = foldr (insertBy cmp) xs []"

text \<open>
  IEEE 754 binary64, between the subnormal range and overflow: \<open>roundToDouble x\<close> is the
  double nearest to the rational \<open>x\<close>, ties to the even significand. \<open>fmul\<close> is the
  multiplication of two doubles, and \<open>mathRound\<close> is \<open>Math.round\<close>, which rounds ties
  upwards.
\<close>

definition pow2 :: "int \<Rightarrow> rat" where
  "pow2 e = (if 0 \<le> e then 2 ^ nat e else 1 / 2 ^ nat (- e))"

definition roundHalfEven :: "rat \<Rightarrow> int" where
  "roundHalfEven q =
     (let n = \<lfloor>q\<rfloor>; r = q - of_int n
      in if r < 1 / 2 then n
         else if 1 / 2 < r then n + 1
         else if even n then n else n + 1)"

definition roundToDouble :: "rat \<Rightarrow> rat" where
  "roundToDouble x =
     (if x = 0 then 0
      else
        let m = \<bar>x\<bar>;
            (a, b) = quotient_of m;
            e0 = bitlen a - bitlen b;
            e = (if pow2 e0 \<le> m then e0 else e0 - 1);
            ulp = pow2 (e - 52)
        in sgn x * of_int (roundHalfEven (m / ulp)) * ulp)"

definition fmul :: "rat \<Rightarrow> rat \<Rightarrow> rat" where
  "fmul x y = roundToDouble (x * y)"

definition mathRound :: "rat \<Rightarrow> int" where
  "mathRound x = \<lfloor>x + 1 / 2\<rfloor>"

text \<open>The doubles that the literals \<open>0.7\<close>, \<open>0.8\<close> and \<open>0.9\<close> denote.\<close>

definition d0_7 :: rat where "d0_7 = 6305039478318694 / 2 ^ 53"
definition d0_8 :: rat where "d0_8 = 7205759403792794 / 2 ^ 53"
definition d0_9 :: rat where "d0_9 = 8106479329266893 / 2 ^ 53"

text \<open>
  A number that may be infinite or NaN. The code divides counts, which are not negative, so
  minus infinity does not arise. \<open>fdiv x y\<close> is \<open>x / y\<close> for two such doubles; \<open>jdiv\<close> and
  \<open>jadd\<close> are \<open>/\<close> by a positive count and \<open>+\<close>; \<open>mathMin1 v\<close> is \<open>Math.min(1, v)\<close>.
\<close>

datatype jsnum = Num rat | PosInf | NaN

definition fdiv :: "rat \<Rightarrow> rat \<Rightarrow> jsnum" where
  "fdiv x y =
     (if y = 0 then (if x = 0 then NaN else PosInf) else Num (roundToDouble (x / y)))"

definition jdiv :: "jsnum \<Rightarrow> nat \<Rightarrow> jsnum" where
  "jdiv v n =
     (case v of
        Num x \<Rightarrow> Num (roundToDouble (x / of_nat n))
      | PosInf \<Rightarrow> PosInf
      | NaN \<Rightarrow> NaN)"

definition jadd :: "jsnum \<Rightarrow> jsnum \<Rightarrow> jsnum" where
  "jadd v w =
     (case (v, w) of
        (Num x, Num y) \<Rightarrow> Num (roundToDouble (x + y))
      | (NaN, _) \<Rightarrow> NaN
      | (_, NaN) \<Rightarrow> NaN
      | _ \<Rightarrow> PosInf)"

definition mathMin1 :: "jsnum \<Rightarrow> jsnum" where
  "mathMin1 v = (case v of Num x \<Rightarrow> Num (min 1 x) | PosInf \<Rightarrow> Num 1 | NaN \<Rightarrow> NaN)"

text \<open>What a function throws.\<close>

datatype error = InvalidJson | TypeError

text \<open>
  A property read \<open>o[k]\<close> on an object literal \<open>o\<close>, given by its own properties: a key
  that \<open>o\<close> does not hold is looked up in \<open>Object.prototype\<close>, whose members are functions
  and, for \<open>__proto__\<close>, the prototype object itself.
\<close>

datatype 'a property = Own 'a | Inherited | Absent

definition objectPrototypeMembers :: "string list" where
  "objectPrototypeMembers =
     [''constructor'', ''__defineGetter__'', ''__defineSetter__'', ''hasOwnProperty'',
      ''__lookupGetter__'', ''__lookupSetter__'', ''isPrototypeOf'', ''propertyIsEnumerable'',
      ''toString'', ''valueOf'', ''__proto__'', ''toLocaleString'']"

definition getProp :: "(string \<times> 'a) list \<Rightarrow> string \<Rightarrow> 'a property" where
  "getProp obj k =
     (case map_of obj k of
        Some v \<Rightarrow> Own v
      | None \<Rightarrow> if k \<in> set objectPrototypeMembers then Inherited else Absent)"

section \<open>src/lib/risk.ts\<close>

datatype Severity = Low | Moderate | High | Critical

fun SEVERITY_WEIGHT :: "Severity \<Rightarrow> nat" where
  "SEVERITY_WEIGHT Low = 10"
| "SEVERITY_WEIGHT Moderate = 35"
| "SEVERITY_WEIGHT High = 60"
| "SEVERITY_WEIGHT Critical = 80"

subsection \<open>normalizeNeeds\<close>

text \<open>The chain of regular expression tests of the loop body, in the order of the source,
  applied to the lower-cased and trimmed phrase.\<close>

definition canonicalNeed :: "string \<Rightarrow> string" where
  "canonicalNeed n =
     (if testAny [''emt'', ''medic'', ''injur'', ''medical'', ''first aid''] n then ''medical''
      else if testAny [''rescue'', ''trapped'', ''us&r'', ''usar''] n then ''rescue''
      else if testAny [''evac'', ''shelter'', ''displace''] n then ''evacuation''
      else if testAny [''fire'', ''smoke'', ''gas''] n then ''fire''
      else if testAny [''utility'', ''electric'', ''power'', ''lines'', ''gas'', ''water main''] n
        then ''utility''
      else if testAny [''public works'', ''debris'', ''sandbag'', ''pump'', ''road''] n
        then ''public-works''
      else if testAny [''security'', ''crowd'', ''police''] n then ''security''
      else if testAny [''water''] n then ''water''
      else if testAny [''food''] n then ''food''
      else n)"

text \<open>The loop over \<open>needs\<close>, with the array \<open>canon\<close> as accumulator.\<close>

fun canonLoop :: "string list \<Rightarrow> string list \<Rightarrow> string list" where
  "canonLoop canon [] = canon"
| "canonLoop canon (raw # rest) =
     (let n = trim (toLowerCase raw)
      in if n = [] then canonLoop canon rest
         else canonLoop (canon @ [canonicalNeed n]) rest)"

definition normalizeNeeds :: "string list \<Rightarrow> string list" where
  "normalizeNeeds needs = arrayFromSet (canonLoop [] needs)"

subsection \<open>computeRiskScore\<close>

definition NEED_WEIGHT :: "(string \<times> nat) list" where
  "NEED_WEIGHT =
     [(''medical'', 25), (''rescue'', 20), (''evacuation'', 15), (''fire'', 20),
      (''utility'', 12), (''public-works'', 12), (''security'', 10), (''water'', 8),
      (''food'', 8)]"

text \<open>\<open>NEED_WEIGHT[n] || 0\<close>: a number, or an inherited member, which is truthy and
  stays.\<close>

datatype weight = Weight nat | Member

definition needWeight :: "string \<Rightarrow> weight" where
  "needWeight n =
     (case getProp NEED_WEIGHT n of
        Own w \<Rightarrow> Weight w
      | Absent \<Rightarrow> Weight 0
      | Inherited \<Rightarrow> Member)"

text \<open>
  \<open>Date.now()\<close> and \<open>Date.parse\<close> belong to the platform: \<open>now\<close> is the clock in
  milliseconds, and \<open>dateParse s\<close> is the time value of \<open>s\<close>, \<open>None\<close> where \<open>Date.parse\<close>
  gives NaN. \<open>time_iso\<close> is \<open>None\<close> when the property is absent or null.
\<close>

definition timeDecay :: "int \<Rightarrow> (string \<Rightarrow> int option) \<Rightarrow> string option \<Rightarrow> rat \<Rightarrow> rat" where
  "timeDecay now dateParse time_iso score =
     (case time_iso of
        None \<Rightarrow> fmul score d0_9
      | Some s \<Rightarrow>
          if s = [] then fmul score d0_9
          else (case dateParse s of
                  None \<Rightarrow> score
                | Some t \<Rightarrow>
                    let ageH = of_int (now - t) / (1000 * 60 * 60) :: rat
                    in if ageH > 12 then fmul score d0_7
                       else if ageH > 6 then fmul score d0_8
                       else if ageH > 2 then fmul score d0_9
                       else score))"

text \<open>
  \<open>.sort((a, b) => b - a)\<close>: on numbers the comparator is consistent and the sort is the
  stable one. With an inherited member among two or more elements \<open>b - a\<close> is NaN, the
  comparator is not consistent and the order is left to the host: \<open>hostSort\<close> is what the
  host does then.
\<close>

definition compareWeights :: "weight \<Rightarrow> weight \<Rightarrow> int" where
  "compareWeights a b =
     (case (a, b) of (Weight x, Weight y) \<Rightarrow> int y - int x | _ \<Rightarrow> 0)"

definition isWeight :: "weight \<Rightarrow> bool" where
  "isWeight w = (case w of Weight x \<Rightarrow> True | Member \<Rightarrow> False)"

definition sortWeights :: "(weight list \<Rightarrow> weight list) \<Rightarrow> weight list \<Rightarrow> weight list" where
  "sortWeights hostSort ws =
     (if length ws < 2 \<or> list_all isWeight ws then sortBy compareWeights ws else hostSort ws)"

definition topWeights :: "(weight list \<Rightarrow> weight list) \<Rightarrow> string list \<Rightarrow> weight list" where
  "topWeights hostSort nrm = take 2 (sortWeights hostSort (map needWeight nrm))"

text \<open>\<open>score += w\<close>: adding an inherited member turns the score into a string, which no
  later addition makes a number again; \<open>None\<close> is such a string.\<close>

definition addWeight :: "nat option \<Rightarrow> weight \<Rightarrow> nat option" where
  "addWeight score w =
     (case (score, w) of (Some s, Weight x) \<Rightarrow> Some (s + x) | _ \<Rightarrow> None)"

text \<open>A score that is a string is not numeric: through each branch of the time decay,
  \<open>Math.round\<close> makes it NaN, and so do \<open>Math.min\<close> and \<open>Math.max\<close>.\<close>

definition computeRiskScore ::
  "(weight list \<Rightarrow> weight list) \<Rightarrow> int \<Rightarrow> (string \<Rightarrow> int option) \<Rightarrow> Severity option
   \<Rightarrow> string list \<Rightarrow> string option \<Rightarrow> jsnum"
where
  "computeRiskScore hostSort now dateParse severity needs time_iso =
     (let score0 = (case severity of None \<Rightarrow> 0 | Some s \<Rightarrow> SEVERITY_WEIGHT s);
          nrm = normalizeNeeds needs;
          weights = topWeights hostSort nrm
      in case foldl addWeight (Some score0) weights of
           None \<Rightarrow> NaN
         | Some score1 \<Rightarrow>
             Num (of_int (max 0 (min 100
               (mathRound (timeDecay now dateParse time_iso (of_nat score1)))))))"

subsection \<open>suggestFacilities\<close>

datatype FacilityType = Hospital | Shelter | Fire | Police | PublicWorks | Utility

record Facility =
  fid :: string
  type :: FacilityType
  name :: string
  address :: "string option"
  phone :: "string option"
  fnotes :: "string option"
  capabilities :: "string list option"

definition NEED_TO_FACILITY :: "(string \<times> FacilityType list) list" where
  "NEED_TO_FACILITY =
     [(''medical'', [Hospital]), (''rescue'', [Fire]), (''fire'', [Fire]),
      (''evacuation'', [Shelter]), (''public-works'', [PublicWorks]),
      (''utility'', [Utility]), (''water'', [PublicWorks, Shelter]),
      (''food'', [Shelter]), (''security'', [Police])]"

definition NEED_TO_CAPS :: "(string \<times> string list) list" where
  "NEED_TO_CAPS =
     [(''medical'', [''er'', ''trauma'', ''icu'', ''pediatric'', ''surgery'', ''helipad'']),
      (''rescue'', [''usar'', ''rope'', ''swiftwater'', ''hazmat'']),
      (''fire'', [''firefighting'', ''hazmat'']),
      (''evacuation'', [''shelter'', ''cots'', ''blankets'', ''accessible'', ''pets'']),
      (''public-works'', [''pumps'', ''sandbags'', ''debris'', ''heavy-equipment'']),
      (''utility'', [''linecrew'', ''electric'', ''gas'', ''water'', ''substation'']),
      (''water'', [''water'', ''pumps'', ''bottled-water'']),
      (''food'', [''food'', ''meals'']),
      (''security'', [''crowd-control'', ''perimeter'', ''traffic''])]"

fun TYPE_WEIGHT :: "FacilityType \<Rightarrow> nat" where
  "TYPE_WEIGHT Hospital = 30"
| "TYPE_WEIGHT Fire = 25"
| "TYPE_WEIGHT Shelter = 18"
| "TYPE_WEIGHT PublicWorks = 15"
| "TYPE_WEIGHT Utility = 15"
| "TYPE_WEIGHT Police = 12"

definition scoreFacility :: "Facility \<Rightarrow> FacilityType set \<Rightarrow> string set \<Rightarrow> nat" where
  "scoreFacility f desiredTypes desiredCaps =
     (let score = (if type f \<in> desiredTypes then TYPE_WEIGHT (type f) else 0);
          caps = map toLowerCase (case capabilities f of None \<Rightarrow> [] | Some cs \<Rightarrow> cs);
          capMatches = length (filter (\<lambda>c. c \<in> desiredCaps) caps)
      in score + capMatches * 8)"

text \<open>\<open>(o[n] || []).forEach(...)\<close>: an inherited member is truthy and has no \<open>forEach\<close>.\<close>

definition orEmpty :: "'a list property \<Rightarrow> error + 'a list" where
  "orEmpty p = (case p of Own xs \<Rightarrow> Inr xs | Absent \<Rightarrow> Inr [] | Inherited \<Rightarrow> Inl TypeError)"

text \<open>The loop over the normalised needs that fills \<open>desiredTypes\<close> and \<open>desiredCaps\<close>.\<close>

fun desiredLoop ::
  "string list \<Rightarrow> FacilityType list \<times> string list
   \<Rightarrow> error + FacilityType list \<times> string list" where
  "desiredLoop [] acc = Inr acc"
| "desiredLoop (n # ns) (ts, cs) =
     (case orEmpty (getProp NEED_TO_FACILITY n) of
        Inl e \<Rightarrow> Inl e
      | Inr tn \<Rightarrow>
          (case orEmpty (getProp NEED_TO_CAPS n) of
             Inl e \<Rightarrow> Inl e
           | Inr cn \<Rightarrow> desiredLoop ns (ts @ tn, cs @ cn)))"

text \<open>
  \<open>String.prototype.localeCompare\<close> is a total ordering of strings fixed by the host's
  collation; it is given by a collation key \<open>collate\<close> into a linear order.
\<close>

definition localeCompare :: "(string \<Rightarrow> 'k::linorder) \<Rightarrow> string \<Rightarrow> string \<Rightarrow> int" where
  "localeCompare collate a b =
     (if collate a < collate b then - 1 else if collate b < collate a then 1 else 0)"

definition compareScored ::
  "(string \<Rightarrow> 'k::linorder) \<Rightarrow> Facility \<times> nat \<Rightarrow> Facility \<times> nat \<Rightarrow> int" where
  "compareScored collate a b =
     (if int (snd b) - int (snd a) \<noteq> 0 then int (snd b) - int (snd a)
      else localeCompare collate (name (fst a)) (name (fst b)))"

text \<open>
  A value of type \<open>number\<close>, as the parameter \<open>limit\<close> is once its default 3 is filled in:
  finite, an infinity or NaN.
\<close>

datatype number = Finite rat | PlusInfinity | MinusInfinity | NotANumber

text \<open>The integer part of a finite number, towards zero.\<close>

definition truncateNumber :: "rat \<Rightarrow> int" where
  "truncateNumber q = (if 0 \<le> q then \<lfloor>q\<rfloor> else \<lceil>q\<rceil>)"

text \<open>
  \<open>xs.slice(0, limit)\<close>. The end is \<open>limit\<close> turned into an integer or an infinity: NaN counts
  as 0 and a finite number is truncated. A negative end counts from the end of the list, not
  below its start; any other end is cut at the length.
\<close>

definition sliceTo :: "'a list \<Rightarrow> number \<Rightarrow> 'a list" where
  "sliceTo xs limit =
     (case limit of
        NotANumber \<Rightarrow> take 0 xs
      | PlusInfinity \<Rightarrow> xs
      | MinusInfinity \<Rightarrow> take 0 xs
      | Finite q \<Rightarrow>
          if truncateNumber q < 0 then take (nat (int (length xs) + truncateNumber q)) xs
          else take (nat (truncateNumber q)) xs)"

definition suggestFacilities ::
  "(string \<Rightarrow> 'k::linorder) \<Rightarrow> string list \<Rightarrow> Facility list \<Rightarrow> number
   \<Rightarrow> error + Facility list" where
  "suggestFacilities collate needs facilities limit =
     (let nrm = normalizeNeeds needs
      in if length nrm = 0 then Inr []
         else
           (case desiredLoop nrm ([], []) of
              Inl e \<Rightarrow> Inl e
            | Inr (desiredTypes, desiredCaps) \<Rightarrow>
                let scored =
                      map (\<lambda>f. (f, scoreFacility f (set desiredTypes) (set desiredCaps)))
                        facilities;
                    sorted = sortBy (compareScored collate) scored
                in Inr (map fst (sliceTo (filter (\<lambda>s. snd s > 0) sorted) limit))))"

text \<open>\<open>n <= limit\<close> and \<open>0 <= limit\<close> on numbers: a comparison with NaN is false.\<close>

definition atMost :: "nat \<Rightarrow> number \<Rightarrow> bool" where
  "atMost n limit =
     (case limit of
        Finite q \<Rightarrow> of_nat n \<le> q
      | PlusInfinity \<Rightarrow> True
      | MinusInfinity \<Rightarrow> False
      | NotANumber \<Rightarrow> False)"


definition canonTokens :: "string list" where
  "canonTokens = [''medical'', ''rescue'', ''evacuation'', ''fire'', ''utility'',
     ''public-works'', ''security'', ''water'', ''food'']"

text \<open>A phrase that the loop body of normalizeNeeds maps to itself.\<close>

definition needFixed :: "string \<Rightarrow> bool" where
  "needFixed y = (trim (toLowerCase y) = y \<and> y \<noteq> [] \<and> canonicalNeed y = y)"

text \<open>
  The desired types and capability tags of a list of normalised needs none of which names an
  inherited member; the score \<open>suggestFacilities\<close> then gives a facility, and the order in
  which it ranks two facilities: higher score first, equal scores by name.
\<close>

definition desiredTypesOf :: "string list \<Rightarrow> FacilityType set" where
  "desiredTypesOf nrm =
     set (concat (map (\<lambda>n. case map_of NEED_TO_FACILITY n of None \<Rightarrow> [] | Some ts \<Rightarrow> ts) nrm))"

definition desiredCapsOf :: "string list \<Rightarrow> string set" where
  "desiredCapsOf nrm =
     set (concat (map (\<lambda>n. case map_of NEED_TO_CAPS n of None \<Rightarrow> [] | Some cs \<Rightarrow> cs) nrm))"

definition facilityScore :: "string list \<Rightarrow> Facility \<Rightarrow> nat" where
  "facilityScore needs f =
     scoreFacility f (desiredTypesOf (normalizeNeeds needs)) (desiredCapsOf (normalizeNeeds needs))"


text \<open>The directory of the examples: a hospital with an emergency room, a clinic, and a
  shelter.\<close>

definition exHospital :: Facility where
  "exHospital = \<lparr>fid = ''h1'', type = Hospital, name = ''General Hospital'', address = None,
     phone = None, fnotes = None, capabilities = Some [''er'']\<rparr>"

definition exClinic :: Facility where
  "exClinic = \<lparr>fid = ''h2'', type = Hospital, name = ''City Clinic'', address = None,
     phone = None, fnotes = None, capabilities = Some [''trauma'', ''icu'']\<rparr>"

definition exShelter :: Facility where
  "exShelter = \<lparr>fid = ''s1'', type = Shelter, name = ''Community Shelter'', address = None,
     phone = None, fnotes = None, capabilities = Some [''cots'', ''pets'']\<rparr>"


section \<open>src/app/api/extract/ensemble/route.ts: salvaging JSON\<close>

text \<open>The value \<open>JSON.parse\<close> returns. A number keeps its text: no claim reads its value.
  An object lists its members in the order of the text.\<close>

datatype json =
    JNull
  | JBool bool
  | JNumber string
  | JString string
  | JArray "json list"
  | JObject "(string \<times> json) list"

text \<open>Property access \<open>v.k\<close> on a parsed object: the last member named \<open>k\<close> wins.\<close>

definition member :: "(string \<times> json) list \<Rightarrow> string \<Rightarrow> json option" where
  "member kvs k = map_of (rev kvs) k"

subsection \<open>stripCodeFences\<close>

definition fence :: string where
  "fence = [CHR 0x60, CHR 0x60, CHR 0x60]"

text \<open>
  The tail \<open>([\s\S]*?)\s*```\<close> of the pattern, matched at \<open>s\<close>: the lazy group takes the
  fewest characters after which white space and a closing fence follow. The result is the
  group and the text after the closing fence.
\<close>

fun lazyBody :: "string \<Rightarrow> (string \<times> string) option" where
  "lazyBody [] = None"
| "lazyBody (c # cs) =
     (if prefix fence (dropWhile isSpace (c # cs))
      then Some ([], drop 3 (dropWhile isSpace (c # cs)))
      else map_option (\<lambda>(b, r). (c # b, r)) (lazyBody cs))"

text \<open>
  The whole pattern \<open>/```(?:json)?\s*([\s\S]*?)\s*```/gi\<close> matched at a position where a
  fence starts: the optional tag \<open>json\<close> in any case, then white space, then the tail. Taking
  the tag and all the white space is the first alternative the matcher tries, and whenever
  it fails every other alternative fails too, since a closing fence cannot start inside the
  tag or the white space.
\<close>

definition matchFence :: "string \<Rightarrow> (string \<times> string) option" where
  "matchFence s =
     (let r1 = drop 3 s;
          r2 = (if map lowerChar (take 4 r1) = ''json'' then drop 4 r1 else r1)
      in lazyBody (dropWhile isSpace r2))"

text \<open>\<open>s.replace(pattern, "$1")\<close> with the global flag: every match, from left to right and
  without overlap, is replaced by its group.\<close>

lemma lazyBody_length: "lazyBody s = Some (b, r) \<Longrightarrow> length r \<le> length s"
proof (induction s arbitrary: b r)
  case Nil
  then show ?case by simp
next
  case (Cons c cs)
  show ?case
  proof (cases "prefix fence (dropWhile isSpace (c # cs))")
    case True
    with Cons.prems have "r = drop 3 (dropWhile isSpace (c # cs))" by simp
    moreover have "length (dropWhile isSpace (c # cs)) \<le> length (c # cs)"
      by (rule length_dropWhile_le)
    ultimately show ?thesis by simp
  next
    case False
    with Cons.prems obtain b' where "lazyBody cs = Some (b', r)" by auto
    then have "length r \<le> length cs" by (rule Cons.IH)
    then show ?thesis by simp
  qed
qed

lemma matchFence_length:
  assumes "matchFence (c # cs) = Some (b, r)"
  shows "length r < length (c # cs)"
proof -
  let ?r1 = "drop 3 (c # cs)"
  let ?r2 = "if map lowerChar (take 4 ?r1) = ''json'' then drop 4 ?r1 else ?r1"
  have "matchFence (c # cs) = lazyBody (dropWhile isSpace ?r2)"
    unfolding matchFence_def Let_def by (rule refl)
  with assms have "lazyBody (dropWhile isSpace ?r2) = Some (b, r)"
    by (simp only:)
  then have "length r \<le> length (dropWhile isSpace ?r2)" by (rule lazyBody_length)
  also have "\<dots> \<le> length ?r2" by (rule length_dropWhile_le)
  also have "\<dots> \<le> length ?r1"
  proof (cases "map lowerChar (take 4 ?r1) = ''json''")
    case True
    have "length (drop 4 ?r1) \<le> length ?r1" by (simp only: length_drop diff_le_self)
    with True show ?thesis by (simp only: simp_thms if_True)
  next
    case False
    then show ?thesis by (simp only: simp_thms if_False order_refl)
  qed
  also have "\<dots> < length (c # cs)" by simp
  finally show ?thesis .
qed

function stripCodeFences :: "string \<Rightarrow> string" where
  "stripCodeFences [] = []"
| "stripCodeFences (c # cs) =
     (if prefix fence (c # cs)
      then (case matchFence (c # cs) of
              Some (b, r) \<Rightarrow> b @ stripCodeFences r
            | None \<Rightarrow> c # stripCodeFences cs)
      else c # stripCodeFences cs)"
  by pat_completeness auto
termination
  by (relation "measure length") (auto dest: matchFence_length)

subsection \<open>betweenTags\<close>

text \<open>\<open>s.indexOf(p)\<close> and \<open>s.indexOf(p, k)\<close> for a non-empty \<open>p\<close>; \<open>None\<close> stands for -1.\<close>

fun indexOf :: "string \<Rightarrow> string \<Rightarrow> nat option" where
  "indexOf p [] = (if p = [] then Some 0 else None)"
| "indexOf p (c # cs) =
     (if prefix p (c # cs) then Some 0 else map_option Suc (indexOf p cs))"

definition indexOfFrom :: "string \<Rightarrow> string \<Rightarrow> nat \<Rightarrow> nat option" where
  "indexOfFrom p s k = map_option (\<lambda>j. j + min k (length s)) (indexOf p (drop k s))"

text \<open>\<open>s.slice(a, b)\<close> for \<open>0 \<le> a\<close> and \<open>0 \<le> b\<close>.\<close>

definition slice :: "string \<Rightarrow> nat \<Rightarrow> nat \<Rightarrow> string" where
  "slice s a b = take (b - a) (drop a s)"

definition betweenTags :: "string \<Rightarrow> string \<Rightarrow> string \<Rightarrow> string option" where
  "betweenTags s opn cls =
     (case indexOf opn s of
        None \<Rightarrow> None
      | Some i \<Rightarrow>
          (case indexOfFrom cls s (i + length opn) of
             None \<Rightarrow> None
           | Some j \<Rightarrow> Some (slice s (i + length opn) j)))"

subsection \<open>extractBalancedJson\<close>

text \<open>
  The inner loop from index \<open>start\<close>, over the rest of the text: \<open>prev\<close> is the character
  before \<open>ch\<close> (\<open>s[i - 1]\<close>), and the result is the length of the span that ends where the
  depth comes back to 0.
\<close>

fun scanBalanced ::
  "char \<Rightarrow> char \<Rightarrow> int \<Rightarrow> bool \<Rightarrow> bool \<Rightarrow> char option \<Rightarrow> string \<Rightarrow> nat option" where
  "scanBalanced startCh endCh depth inStr esc prev [] = None"
| "scanBalanced startCh endCh depth inStr esc prev (ch # rest) =
     (if esc then map_option Suc (scanBalanced startCh endCh depth inStr False (Some ch) rest)
      else if ch = CHR 0x5C
        then map_option Suc (scanBalanced startCh endCh depth inStr True (Some ch) rest)
      else
        let inStr' = (if ch = CHR 0x22 \<and> prev \<noteq> Some (CHR 0x5C) then \<not> inStr else inStr)
        in if inStr'
           then map_option Suc (scanBalanced startCh endCh depth inStr' False (Some ch) rest)
           else if ch = startCh
           then map_option Suc
                  (scanBalanced startCh endCh (depth + 1) inStr' False (Some ch) rest)
           else if ch = endCh
           then (if depth - 1 = 0 then Some 1
                 else map_option Suc
                        (scanBalanced startCh endCh (depth - 1) inStr' False (Some ch) rest))
           else map_option Suc (scanBalanced startCh endCh depth inStr' False (Some ch) rest))"

text \<open>One round of the outer loop, for one opening character.\<close>

definition balancedFrom :: "char \<Rightarrow> char \<Rightarrow> string \<Rightarrow> string option" where
  "balancedFrom startCh endCh s =
     (case indexOf [startCh] s of
        None \<Rightarrow> None
      | Some start \<Rightarrow>
          (case scanBalanced startCh endCh 0 False False
                  (if start = 0 then None else Some (s ! (start - 1))) (drop start s) of
             None \<Rightarrow> None
           | Some n \<Rightarrow> Some (slice s start (start + n))))"

definition extractBalancedJson :: "string \<Rightarrow> string option" where
  "extractBalancedJson s =
     (case balancedFrom (CHR ''{'') (CHR ''}'') s of
        Some r \<Rightarrow> Some r
      | None \<Rightarrow> balancedFrom (CHR ''['') (CHR '']'') s)"

subsection \<open>coerceToExtractResponse and parseModelJson\<close>

text \<open>The array \<open>reports\<close> of the result; its elements are of type \<open>any\<close>.\<close>

definition coerceToExtractResponse :: "json \<Rightarrow> json list" where
  "coerceToExtractResponse val =
     (case val of
        JArray xs \<Rightarrow> xs
      | JObject kvs \<Rightarrow>
          (case member kvs ''reports'' of
             Some (JArray xs) \<Rightarrow> xs
           | _ \<Rightarrow> [val])
      | _ \<Rightarrow> [])"

text \<open>The strings tried, in order, before empty ones and repetitions are removed.\<close>

definition optList :: "string option \<Rightarrow> string list" where
  "optList x = (case x of None \<Rightarrow> [] | Some t \<Rightarrow> if t = [] then [] else [t])"

definition candidates :: "string \<Rightarrow> string list" where
  "candidates raw =
     [raw]
     @ (if stripCodeFences raw \<noteq> raw then [stripCodeFences raw] else [])
     @ optList (betweenTags raw ''<json>'' ''</json>'')
     @ optList (extractBalancedJson raw)"

text \<open>The loop over \<open>uniq\<close>: the first candidate that \<open>JSON.parse\<close> accepts is returned.
  \<open>jp\<close> is \<open>JSON.parse\<close>, \<open>None\<close> where it throws.\<close>

fun firstParsed :: "(string \<Rightarrow> json option) \<Rightarrow> string list \<Rightarrow> json option" where
  "firstParsed jp [] = None"
| "firstParsed jp (c # cs) = (case jp c of Some v \<Rightarrow> Some v | None \<Rightarrow> firstParsed jp cs)"

definition parseModelJson :: "(string \<Rightarrow> json option) \<Rightarrow> string \<Rightarrow> error + json list" where
  "parseModelJson jp raw =
     (let uniq = arrayFromSet (filter (\<lambda>c. c \<noteq> []) (candidates raw))
      in case firstParsed jp uniq of
           Some parsed \<Rightarrow> Inr (coerceToExtractResponse parsed)
         | None \<Rightarrow> Inl InvalidJson)"

subsection \<open>JSON.parse\<close>

text \<open>
  \<open>JSON.parse\<close> as a recursive descent over the grammar of ECMA-404, on texts and strings
  of code units below 256 (an escape \<open>\uXXXX\<close> beyond that range is outside the model and
  is refused). \<open>jsonParse s\<close> is \<open>None\<close> where \<open>JSON.parse(s)\<close> throws. Of two nested calls
  of the parser at least one consumes a character, so the depth of the recursion is at most
  twice the length of the text: that is the fuel the parser starts with.
\<close>

definition isJsonWs :: "char \<Rightarrow> bool" where
  "isJsonWs c = (c = CHR 0x20 \<or> c = CHR 0x09 \<or> c = CHR 0x0A \<or> c = CHR 0x0D)"

definition skipWs :: "string \<Rightarrow> string" where
  "skipWs s = dropWhile isJsonWs s"

definition isDigit :: "char \<Rightarrow> bool" where
  "isDigit c = (48 \<le> (of_char c :: nat) \<and> (of_char c :: nat) \<le> 57)"

definition hexValue :: "char \<Rightarrow> nat option" where
  "hexValue c =
     (let n = of_char c :: nat
      in if 48 \<le> n \<and> n \<le> 57 then Some (n - 48)
         else if 65 \<le> n \<and> n \<le> 70 then Some (n - 55)
         else if 97 \<le> n \<and> n \<le> 102 then Some (n - 87)
         else None)"

definition hex4 :: "string \<Rightarrow> nat option" where
  "hex4 s =
     (case map hexValue s of
        [Some a, Some b, Some c, Some d] \<Rightarrow> Some (((a * 16 + b) * 16 + c) * 16 + d)
      | _ \<Rightarrow> None)"

definition escapeChar :: "char \<Rightarrow> char option" where
  "escapeChar e =
     (if e = CHR 0x22 then Some (CHR 0x22)
      else if e = CHR 0x5C then Some (CHR 0x5C)
      else if e = CHR ''/'' then Some (CHR ''/'')
      else if e = CHR ''b'' then Some (CHR 0x08)
      else if e = CHR ''f'' then Some (CHR 0x0C)
      else if e = CHR ''n'' then Some (CHR 0x0A)
      else if e = CHR ''r'' then Some (CHR 0x0D)
      else if e = CHR ''t'' then Some (CHR 0x09)
      else None)"

text \<open>The characters of a string after its opening quote: the string's value and the text
  after the closing quote.\<close>

fun parseString :: "string \<Rightarrow> (string \<times> string) option" where
  "parseString [] = None"
| "parseString [c] = (if c = CHR 0x22 then Some ([], []) else None)"
| "parseString (c # e # cs) =
     (if c = CHR 0x22 then Some ([], e # cs)
      else if c = CHR 0x5C then
        (if e = CHR ''u'' then
           (case hex4 (take 4 cs) of
              None \<Rightarrow> None
            | Some n \<Rightarrow>
                if n < 256
                then map_option (\<lambda>(s, r). (char_of n # s, r)) (parseString (drop 4 cs))
                else None)
         else
           (case escapeChar e of
              None \<Rightarrow> None
            | Some x \<Rightarrow> map_option (\<lambda>(s, r). (x # s, r)) (parseString cs)))
      else if (of_char c :: nat) < 32 then None
      else map_option (\<lambda>(s, r). (c # s, r)) (parseString (e # cs)))"

text \<open>A number: \<open>-? (0 | [1-9][0-9]*) (. [0-9]+)? ([eE] [+-]? [0-9]+)?\<close>. The result is its
  text and the rest.\<close>

definition takeDigits :: "string \<Rightarrow> string \<times> string" where
  "takeDigits s = (takeWhile isDigit s, dropWhile isDigit s)"

definition parseInt :: "string \<Rightarrow> (string \<times> string) option" where
  "parseInt s =
     (case s of
        [] \<Rightarrow> None
      | c # cs \<Rightarrow>
          if c = CHR ''0'' then Some ([c], cs)
          else if isDigit c then Some (c # fst (takeDigits cs), snd (takeDigits cs))
          else None)"

definition parseFrac :: "string \<Rightarrow> (string \<times> string) option" where
  "parseFrac s =
     (case s of
        [] \<Rightarrow> Some ([], [])
      | c # cs \<Rightarrow>
          if c = CHR ''.'' then
            (if fst (takeDigits cs) = [] then None
             else Some (c # fst (takeDigits cs), snd (takeDigits cs)))
          else Some ([], s))"

definition parseExp :: "string \<Rightarrow> (string \<times> string) option" where
  "parseExp s =
     (case s of
        [] \<Rightarrow> Some ([], [])
      | c # cs \<Rightarrow>
          if c = CHR ''e'' \<or> c = CHR ''E'' then
            (let (sign, ds) =
                   (case cs of
                      [] \<Rightarrow> ([], [])
                    | d # ds' \<Rightarrow> if d = CHR ''+'' \<or> d = CHR ''-'' then ([d], ds') else ([], cs))
             in if fst (takeDigits ds) = [] then None
                else Some (c # sign @ fst (takeDigits ds), snd (takeDigits ds)))
          else Some ([], s))"

definition parseNumber :: "string \<Rightarrow> (string \<times> string) option" where
  "parseNumber s =
     (let (sign, s1) = (case s of [] \<Rightarrow> ([], []) | c # cs \<Rightarrow> if c = CHR ''-'' then ([c], cs) else ([], s))
      in case parseInt s1 of
           None \<Rightarrow> None
         | Some (i, s2) \<Rightarrow>
             (case parseFrac s2 of
                None \<Rightarrow> None
              | Some (f, s3) \<Rightarrow>
                  (case parseExp s3 of
                     None \<Rightarrow> None
                   | Some (e, s4) \<Rightarrow> Some (sign @ i @ f @ e, s4))))"

text \<open>A value at the start of \<open>s\<close>; the elements of an array after \<open>[\<close>; the members of an
  object after \<open>{\<close>. Each gives what it read and the rest of the text.\<close>

fun parseValue :: "nat \<Rightarrow> string \<Rightarrow> (json \<times> string) option"
  and parseElems :: "nat \<Rightarrow> string \<Rightarrow> (json list \<times> string) option"
  and parseMembers :: "nat \<Rightarrow> string \<Rightarrow> ((string \<times> json) list \<times> string) option"
where
  "parseValue 0 s = None"
| "parseValue (Suc n) s =
     (case s of
        [] \<Rightarrow> None
      | c # cs \<Rightarrow>
          if c = CHR ''{'' then
            (if prefix ''}'' (skipWs cs) then Some (JObject [], drop 1 (skipWs cs))
             else map_option (\<lambda>(kvs, r). (JObject kvs, r)) (parseMembers n (skipWs cs)))
          else if c = CHR ''['' then
            (if prefix '']'' (skipWs cs) then Some (JArray [], drop 1 (skipWs cs))
             else map_option (\<lambda>(vs, r). (JArray vs, r)) (parseElems n (skipWs cs)))
          else if c = CHR 0x22 then map_option (\<lambda>(t, r). (JString t, r)) (parseString cs)
          else if prefix ''true'' s then Some (JBool True, drop 4 s)
          else if prefix ''false'' s then Some (JBool False, drop 5 s)
          else if prefix ''null'' s then Some (JNull, drop 4 s)
          else map_option (\<lambda>(t, r). (JNumber t, r)) (parseNumber s))"
| "parseElems 0 s = None"
| "parseElems (Suc n) s =
     (case parseValue n s of
        None \<Rightarrow> None
      | Some (v, r) \<Rightarrow>
          if prefix '','' (skipWs r)
          then map_option (\<lambda>(vs, r'). (v # vs, r')) (parseElems n (skipWs (drop 1 (skipWs r))))
          else if prefix '']'' (skipWs r) then Some ([v], drop 1 (skipWs r))
          else None)"
| "parseMembers 0 s = None"
| "parseMembers (Suc n) s =
     (case s of
        [] \<Rightarrow> None
      | q # cs \<Rightarrow>
          if q \<noteq> CHR 0x22 then None
          else
            (case parseString cs of
               None \<Rightarrow> None
             | Some (k, r) \<Rightarrow>
                 if \<not> prefix '':'' (skipWs r) then None
                 else
                   (case parseValue n (skipWs (drop 1 (skipWs r))) of
                      None \<Rightarrow> None
                    | Some (v, r') \<Rightarrow>
                        if prefix '','' (skipWs r')
                        then map_option (\<lambda>(kvs, r''). ((k, v) # kvs, r''))
                               (parseMembers n (skipWs (drop 1 (skipWs r'))))
                        else if prefix ''}'' (skipWs r') then Some ([(k, v)], drop 1 (skipWs r'))
                        else None)))"

definition jsonParse :: "string \<Rightarrow> json option" where
  "jsonParse s =
     (case parseValue (2 * length s + 2) (skipWs s) of
        None \<Rightarrow> None
      | Some (v, r) \<Rightarrow> if skipWs r = [] then Some v else None)"

section \<open>src/app/api/extract/ensemble/route.ts: merging the runs\<close>

text \<open>
  A report of a run, at the declared type \<open>ExtractedReport\<close>: the six properties the handler
  reads. \<open>None\<close> is null or absent. The severity is the string the model wrote: the handler
  checks it itself. \<open>needs\<close> is the empty list when the property is not an array. A merged
  report has an id and the confidences as well.
\<close>

record ExtractedReport =
  location_text :: "string option"
  time_iso :: "string option"
  severity :: "string option"
  needs :: "string list"
  dedupe_key :: "string option"
  rnotes :: "string option"

record Confields =
  cf_location_text :: jsnum
  cf_time_iso :: jsnum
  cf_severity :: jsnum
  cf_needs :: jsnum

record MergedReport = ExtractedReport +
  rid :: string
  confidence_overall :: jsnum
  confields :: Confields

subsection \<open>The host\<close>

text \<open>
  What the handler gets from outside. \<open>parse\<close> is \<open>parseModelJson\<close> at its declared result
  type (\<open>None\<close> where it throws); \<open>dateParse\<close> is the time value of \<open>new Date(s)\<close> (\<open>None\<close>
  for an invalid date) and \<open>utcFields\<close> gives \<open>getUTCFullYear\<close>, \<open>getUTCMonth\<close>,
  \<open>getUTCDate\<close>, \<open>getUTCHours\<close> and \<open>getUTCMinutes\<close> of a time value; \<open>randomUUID i\<close> is
  the identifier drawn for the \<open>i\<close>-th merged report; \<open>ping_ok\<close> tells whether the
  reachability request came back with an OK status; \<open>generate i\<close> is the outcome of the
  \<open>i\<close>-th generation request.
\<close>

datatype Attempt =
    FetchRejected
  | NotOk nat string
  | BodyRejected
  | Reply "string option"

record Env =
  parse :: "string \<Rightarrow> ExtractedReport list option"
  dateParse :: "string \<Rightarrow> int option"
  utcFields :: "int \<Rightarrow> int \<times> int \<times> int \<times> int \<times> int"
  randomUUID :: "nat \<Rightarrow> string"
  ping_ok :: bool
  generate :: "nat \<Rightarrow> Attempt"

subsection \<open>Merge helpers\<close>

definition norm_str :: "string option \<Rightarrow> string" where
  "norm_str s = toLowerCase (trim (case s of None \<Rightarrow> [] | Some t \<Rightarrow> t))"

text \<open>A number in a template literal.\<close>

function showNat :: "nat \<Rightarrow> string" where
  "showNat n = (if n < 10 then [char_of (48 + n)] else showNat (n div 10) @ [char_of (48 + n mod 10)])"
  by pat_completeness auto
termination
  by (relation "measure id") auto

definition showInt :: "int \<Rightarrow> string" where
  "showInt i = (if i < 0 then ''-'' @ showNat (nat (- i)) else showNat (nat i))"

definition minuteBucket :: "Env \<Rightarrow> string option \<Rightarrow> string" where
  "minuteBucket env t_iso =
     (case t_iso of
        None \<Rightarrow> []
      | Some s \<Rightarrow>
          if s = [] then []
          else
            (case dateParse env s of
               None \<Rightarrow> []
             | Some t \<Rightarrow>
                 (case utcFields env t of
                    (y, mo, d, h, mi) \<Rightarrow>
                      showInt y @ ''-'' @ showInt mo @ ''-'' @ showInt d @ '' ''
                      @ showInt h @ '':'' @ showInt mi)))"

fun join :: "string \<Rightarrow> string list \<Rightarrow> string" where
  "join sep [] = []"
| "join sep [x] = x"
| "join sep (x # y # ys) = x @ sep @ join sep (y # ys)"

text \<open>\<open>sort()\<close> without a comparator orders strings by their code units.\<close>

definition makeKey :: "Env \<Rightarrow> ExtractedReport \<Rightarrow> string" where
  "makeKey env r =
     (let loc = norm_str (location_text r);
          time = minuteBucket env (time_iso r);
          sev = (case severity r of None \<Rightarrow> [] | Some s \<Rightarrow> s);
          nds = join '','' (sort (map (\<lambda>n. trim (toLowerCase n)) (needs r)))
      in case dedupe_key r of
           None \<Rightarrow> ''k:'' @ loc @ ''|'' @ time @ ''|'' @ sev @ ''|'' @ nds
         | Some dk \<Rightarrow>
             if dk = [] then ''k:'' @ loc @ ''|'' @ time @ ''|'' @ sev @ ''|'' @ nds
             else ''d:'' @ norm_str (Some dk))"

text \<open>
  \<open>majority\<close>: \<open>m\<close> counts the values seen, and \<open>best\<close> is replaced whenever a count
  exceeds its count. The keys \<open>JSON.stringify(v ?? null)\<close> tell a string from null and two
  strings apart, so the values are their own keys.
\<close>

fun majorityLoop ::
  "('a option \<Rightarrow> nat) \<Rightarrow> 'a option \<times> nat \<Rightarrow> 'a option list \<Rightarrow> 'a option \<times> nat" where
  "majorityLoop m best [] = best"
| "majorityLoop m best (v # vs) =
     (let c = m v + 1
      in majorityLoop (m(v := c)) (if c > snd best then (v, c) else best) vs)"

definition majority :: "'a option list \<Rightarrow> 'a option \<times> nat" where
  "majority arr = majorityLoop (\<lambda>_. 0) (None, 0) arr"

text \<open>
  \<open>needsConsensus\<close>: \<open>counts\<close> is a Map, which keeps its keys in the order of their first
  insertion.
\<close>

fun countsSet :: "(string \<times> nat) list \<Rightarrow> string \<Rightarrow> (string \<times> nat) list" where
  "countsSet [] key = [(key, 1)]"
| "countsSet ((k, c) # rest) key =
     (if k = key then (k, c + 1) # rest else (k, c) # countsSet rest key)"

definition countNeed :: "(string \<times> nat) list \<Rightarrow> string \<Rightarrow> (string \<times> nat) list" where
  "countNeed counts n =
     (let key = trim (toLowerCase n)
      in if key = [] then counts else countsSet counts key)"

definition countNeeds :: "string list list \<Rightarrow> (string \<times> nat) list" where
  "countNeeds allNeeds = foldl (\<lambda>counts list. foldl countNeed counts list) [] allNeeds"

definition countsGet :: "(string \<times> nat) list \<Rightarrow> string \<Rightarrow> nat" where
  "countsGet counts n = (case map_of counts n of None \<Rightarrow> 0 | Some c \<Rightarrow> c)"

definition needsConsensus :: "string list list \<Rightarrow> nat \<Rightarrow> string list \<times> jsnum" where
  "needsConsensus allNeeds k =
     (let counts = countNeeds allNeeds;
          entries = sortBy (\<lambda>a b. int (snd b) - int (snd a)) counts;
          threshold = \<lceil>(of_nat k :: rat) / 2\<rceil>;
          above = map fst (filter (\<lambda>(need, c). int c \<ge> threshold) entries);
          chosen = (if length above = 0 then map fst (take 3 entries) else above);
          conf =
            (if length entries = 0 then Num 0
             else mathMin1
                    (fdiv (of_nat (foldl (\<lambda>acc n. acc + countsGet counts n) 0 chosen))
                          (of_nat (k * max 1 (length chosen)))))
      in (chosen, conf))"

subsection \<open>The buckets\<close>

record Bucket =
  locs :: "string option list"
  times :: "string option list"
  sevs :: "string option list"
  bneeds :: "string list list"
  bnotes :: "string option list"
  dedupe_keys :: "string option list"

definition emptyBucket :: Bucket where
  "emptyBucket = \<lparr>locs = [], times = [], sevs = [], bneeds = [], bnotes = [], dedupe_keys = []\<rparr>"

definition checkedSeverity :: "string option \<Rightarrow> string option" where
  "checkedSeverity s =
     (case s of
        None \<Rightarrow> None
      | Some v \<Rightarrow> if v \<in> set [''low'', ''moderate'', ''high'', ''critical''] then Some v else None)"

definition pushReport :: "Bucket \<Rightarrow> ExtractedReport \<Rightarrow> Bucket" where
  "pushReport b rep =
     \<lparr>locs = locs b @ [location_text rep],
      times = times b @ [time_iso rep],
      sevs = sevs b @ [checkedSeverity (severity rep)],
      bneeds = bneeds b @ [needs rep],
      bnotes = bnotes b @ [rnotes rep],
      dedupe_keys = dedupe_keys b @ [dedupe_key rep]\<rparr>"

text \<open>The body of the inner loop over the reports of a run: \<open>buckets\<close> is a Map, in the
  order of the first insertion of its keys.\<close>

definition addReport :: "Env \<Rightarrow> (string \<times> Bucket) list \<Rightarrow> ExtractedReport \<Rightarrow> (string \<times> Bucket) list" where
  "addReport env buckets rep =
     (let key = makeKey env rep;
          buckets' = (if key \<in> set (map fst buckets) then buckets
                      else buckets @ [(key, emptyBucket)])
      in map (\<lambda>(k, b). if k = key then (k, pushReport b rep) else (k, b)) buckets')"

definition fillBuckets :: "Env \<Rightarrow> ExtractedReport list list \<Rightarrow> (string \<times> Bucket) list" where
  "fillBuckets env runs = foldl (\<lambda>buckets run. foldl (addReport env) buckets run) [] runs"

text \<open>\<open>Number(x.toFixed(3))\<close>: the nearest multiple of 0.001, the larger one in a tie, read
  back as a double; infinity and NaN stay.\<close>

definition toFixed3 :: "jsnum \<Rightarrow> jsnum" where
  "toFixed3 v =
     (case v of
        Num x \<Rightarrow> Num (roundToDouble (of_int \<lfloor>x * 1000 + 1 / 2\<rfloor> / 1000))
      | PosInf \<Rightarrow> PosInf
      | NaN \<Rightarrow> NaN)"

text \<open>The body of the loop over the buckets, for the denominator \<open>k\<close> and the identifier
  drawn for the bucket.\<close>

definition mergeBucket :: "string \<Rightarrow> nat \<Rightarrow> Bucket \<Rightarrow> MergedReport" where
  "mergeBucket uuid k b =
     (let locMaj = majority (locs b);
          timeMaj = majority (times b);
          sevMaj = majority (sevs b);
          needsMaj = needsConsensus (bneeds b) k;
          notesMaj = majority (bnotes b);
          dedupMaj = majority (dedupe_keys b);
          confLoc = fdiv (of_nat (snd locMaj)) (of_nat k);
          confTime = fdiv (of_nat (snd timeMaj)) (of_nat k);
          confSev = fdiv (of_nat (snd sevMaj)) (of_nat k);
          confNeeds = snd needsMaj;
          parts = filter (\<lambda>n. n \<noteq> NaN) [confLoc, confTime, confSev, confNeeds];
          overall = (if length parts = 0 then Num 0
                     else jdiv (foldl jadd (Num 0) parts) (length parts))
      in \<lparr>location_text = fst locMaj,
          time_iso = fst timeMaj,
          severity = fst sevMaj,
          needs = fst needsMaj,
          dedupe_key = fst dedupMaj,
          rnotes = fst notesMaj,
          rid = uuid,
          confidence_overall = toFixed3 overall,
          confields =
            \<lparr>cf_location_text = toFixed3 confLoc,
             cf_time_iso = toFixed3 confTime,
             cf_severity = toFixed3 confSev,
             cf_needs = toFixed3 confNeeds\<rparr>\<rparr>)"

text \<open>\<open>runs.length || 1\<close>.\<close>

definition denominator :: "ExtractedReport list list \<Rightarrow> nat" where
  "denominator runs = (if length runs = 0 then 1 else length runs)"

definition mergeAll :: "(nat \<Rightarrow> string) \<Rightarrow> nat \<Rightarrow> (string \<times> Bucket) list \<Rightarrow> MergedReport list" where
  "mergeAll uuids k buckets =
     map (\<lambda>(i, (key, b)). mergeBucket (uuids i) k b) (enumerate 0 buckets)"

subsection \<open>The handler\<close>

text \<open>The body of the request: \<open>text\<close> and \<open>samples\<close>, each \<open>None\<close> when absent or null; the
  body as a whole may be unreadable, which reads as both absent. \<open>samples\<close> is a finite
  number.\<close>

record Request =
  text_field :: "string option"
  samples :: "rat option"

datatype Payload =
    MissingText
  | CannotReach
  | OllamaError nat string
  | Reports "MergedReport list"

datatype Outcome = Response nat Payload | Uncaught

text \<open>The generation loop from request \<open>i\<close> on, with \<open>n\<close> requests to go.\<close>

fun collectRuns ::
  "Env \<Rightarrow> nat \<Rightarrow> nat \<Rightarrow> ExtractedReport list list \<Rightarrow> Outcome + ExtractedReport list list" where
  "collectRuns env i 0 runs = Inr runs"
| "collectRuns env i (Suc n) runs =
     (case generate env i of
        FetchRejected \<Rightarrow> Inl Uncaught
      | NotOk status errText \<Rightarrow> Inl (Response 503 (OllamaError status errText))
      | BodyRejected \<Rightarrow> Inl Uncaught
      | Reply response \<Rightarrow>
          (let content = trim (case response of None \<Rightarrow> [] | Some s \<Rightarrow> s)
           in if content = [] then collectRuns env (Suc i) n runs
              else (case parse env content of
                      Some run \<Rightarrow> collectRuns env (Suc i) n (runs @ [run])
                    | None \<Rightarrow> collectRuns env (Suc i) n runs)))"

text \<open>The number of rounds of \<open>for (let i = 0; i < samples; i++)\<close> with
  \<open>samples = Math.max(2, Math.min(6, body?.samples ?? 3))\<close>.\<close>

definition clampSamples :: "rat option \<Rightarrow> nat" where
  "clampSamples s = nat \<lceil>max 2 (min 6 (case s of None \<Rightarrow> 3 | Some n \<Rightarrow> n))\<rceil>"

definition POST :: "Env \<Rightarrow> Request \<Rightarrow> Outcome" where
  "POST env req =
     (let text = (case text_field req of None \<Rightarrow> [] | Some t \<Rightarrow> trim t);
          samples = clampSamples (samples req)
      in if text = [] then Response 400 MissingText
         else if \<not> ping_ok env then Response 503 CannotReach
         else (case collectRuns env 0 samples [] of
                 Inl out \<Rightarrow> out
               | Inr runs \<Rightarrow>
                   Response 200
                     (Reports (mergeAll (randomUUID env) (denominator runs) (fillBuckets env runs)))))"

subsection \<open>The reports of a run at their declared type\<close>

text \<open>
  \<open>JSON.parse\<close> returns a value of type \<open>any\<close>, which the handler reads as an
  \<open>ExtractResponse\<close> without a check. \<open>asReport\<close> is that reading where the value inhabits
  the declared type: a string property is a string, null or absent, and \<open>needs\<close> holds
  strings when it is an array. A value that is no object has none of the properties. Outside
  the declared type (a property of another type, a report that is null) the handler is not
  modelled and \<open>asReport\<close> gives \<open>None\<close>.
\<close>

definition strField :: "(string \<times> json) list \<Rightarrow> string \<Rightarrow> string option option" where
  "strField kvs k =
     (case member kvs k of
        None \<Rightarrow> Some None
      | Some JNull \<Rightarrow> Some None
      | Some (JString s) \<Rightarrow> Some (Some s)
      | Some _ \<Rightarrow> None)"

definition asString :: "json \<Rightarrow> string option" where
  "asString v = (case v of JString s \<Rightarrow> Some s | _ \<Rightarrow> None)"

definition needsField :: "(string \<times> json) list \<Rightarrow> string list option" where
  "needsField kvs =
     (case member kvs ''needs'' of
        Some (JArray xs) \<Rightarrow> those (map asString xs)
      | _ \<Rightarrow> Some [])"

definition asReport :: "json \<Rightarrow> ExtractedReport option" where
  "asReport v =
     (case v of
        JNull \<Rightarrow> None
      | JObject kvs \<Rightarrow>
          (case (strField kvs ''location_text'', strField kvs ''time_iso'',
                 strField kvs ''severity'', needsField kvs,
                 strField kvs ''dedupe_key'', strField kvs ''notes'') of
             (Some l, Some t, Some s, Some n, Some d, Some no) \<Rightarrow>
               Some \<lparr>location_text = l, time_iso = t, severity = s, needs = n,
                     dedupe_key = d, rnotes = no\<rparr>
           | _ \<Rightarrow> None)
      | _ \<Rightarrow>
          Some \<lparr>location_text = None, time_iso = None, severity = None, needs = [],
                dedupe_key = None, rnotes = None\<rparr>)"

definition typedParse :: "(string \<Rightarrow> json option) \<Rightarrow> string \<Rightarrow> ExtractedReport list option" where
  "typedParse jp content =
     (case parseModelJson jp content of
        Inl e \<Rightarrow> None
      | Inr reps \<Rightarrow> those (map asReport reps))"

section \<open>Notions of the claims\<close>

text \<open>
  The generation requests \<open>0 .. n - 1\<close> that came back with a non-empty response text
  (\<open>answered\<close>, the denominator the specification names), and those whose text was salvaged
  into a run (\<open>salvaged\<close>).
\<close>

definition replyText :: "Attempt \<Rightarrow> string" where
  "replyText a = (case a of Reply (Some s) \<Rightarrow> trim s | _ \<Rightarrow> [])"

definition answered :: "Env \<Rightarrow> nat \<Rightarrow> bool" where
  "answered env i = (replyText (generate env i) \<noteq> [])"

definition salvage :: "Env \<Rightarrow> nat \<Rightarrow> ExtractedReport list option" where
  "salvage env i =
     (if replyText (generate env i) = [] then None else parse env (replyText (generate env i)))"

definition answeredCount :: "Env \<Rightarrow> nat \<Rightarrow> nat" where
  "answeredCount env n = length (filter (answered env) [0..<n])"

definition salvagedCount :: "Env \<Rightarrow> nat \<Rightarrow> nat" where
  "salvagedCount env n = length (filter (\<lambda>i. salvage env i \<noteq> None) [0..<n])"

definition isReply :: "Attempt \<Rightarrow> bool" where
  "isReply a = (case a of Reply r \<Rightarrow> True | _ \<Rightarrow> False)"

text \<open>
  Follows the specification's words, "the first top-level balanced bracket/brace span": the
  span that starts at the first opening brace or bracket of the text, whichever comes first.
\<close>

definition firstBalancedSpan :: "string \<Rightarrow> string option" where
  "firstBalancedSpan s =
     (case dropWhile (\<lambda>c. c \<noteq> CHR ''{'' \<and> c \<noteq> CHR ''['') s of
        [] \<Rightarrow> None
      | c # cs \<Rightarrow>
          if c = CHR ''{'' then balancedFrom (CHR ''{'') (CHR ''}'') s
          else balancedFrom (CHR ''['') (CHR '']'') s)"

text \<open>The number of need lists of a bucket in which a token occurs, lower-cased and trimmed.\<close>

definition listsWith :: "string \<Rightarrow> string list list \<Rightarrow> nat" where
  "listsWith key allNeeds =
     length (filter (\<lambda>list. key \<in> set (map (\<lambda>n. trim (toLowerCase n)) list)) allNeeds)"

text \<open>The Bucketer and Voter on an ordered list of candidate reports, for a fixed
  denominator: the two loops of the handler after the generation loop.\<close>

definition bucketAndVote ::
  "Env \<Rightarrow> nat \<Rightarrow> ExtractedReport list \<Rightarrow> MergedReport list" where
  "bucketAndVote env k cands =
     mergeAll (randomUUID env) k (foldl (addReport env) [] cands)"

definition eraseId :: "MergedReport \<Rightarrow> MergedReport" where
  "eraseId m = m\<lparr>rid := []\<rparr>"

section \<open>Example inputs\<close>

text \<open>The model output of the specification's salvage example.\<close>

definition pineFenced :: string where
  "pineFenced =
     ''Here is the data:'' @ [CHR 0x0A] @ fence @ ''json'' @ [CHR 0x0A]
     @ ''{\"reports\":[{\"location_text\":\"Pine St\",\"severity\":\"high\",\"needs\":[\"medical\"]}]}''
     @ [CHR 0x0A] @ fence"

text \<open>An array of two reports followed by prose.\<close>

definition twoReportsThenProse :: string where
  "twoReportsThenProse =
     ''[{\"location_text\":\"Pine St\"},{\"location_text\":\"Oak Ave\"}] Done.''"

text \<open>A host whose model answers request \<open>i\<close> with \<open>gen i\<close>; the reports of the examples
  carry no time, so the date functions are never asked.\<close>

definition exEnv :: "(nat \<Rightarrow> Attempt) \<Rightarrow> Env" where
  "exEnv gen =
     \<lparr>parse = typedParse jsonParse,
      dateParse = (\<lambda>s. None),
      utcFields = (\<lambda>t. (1970, 0, 1, 0, 0)),
      randomUUID = (\<lambda>i. ''id-'' @ showNat i),
      ping_ok = True,
      generate = gen\<rparr>"

definition exRequest :: Request where
  "exRequest = \<lparr>text_field = Some ''Tree down on Pine St, one person hurt'', samples = Some 2\<rparr>"

definition pineJson :: string where
  "pineJson =
     ''{\"reports\":[{\"location_text\":\"Pine St\",\"time_iso\":null,\"severity\":\"high\",\"needs\":[\"medical\"]}]}''"

definition pineReport :: ExtractedReport where
  "pineReport =
     \<lparr>location_text = Some ''Pine St'', time_iso = None, severity = Some ''high'',
      needs = [''medical''], dedupe_key = None, rnotes = None\<rparr>"

text \<open>First answer is prose, second is a valid report.\<close>

definition proseThenPine :: "nat \<Rightarrow> Attempt" where
  "proseThenPine i =
     (if i = 0 then Reply (Some ''I could not find any incident.'') else Reply (Some pineJson))"

text \<open>First answer is a valid report, the second request fails with status 500.\<close>

definition pineThenFailure :: "nat \<Rightarrow> Attempt" where
  "pineThenFailure i = (if i = 0 then Reply (Some pineJson) else NotOk 500 ''overloaded'')"

text \<open>Every answer lists the same incident twice, under one dedupe key.\<close>

definition twicePineJson :: string where
  "twicePineJson =
     ''{\"reports\":[''
     @ ''{\"location_text\":\"Pine St\",\"severity\":\"high\",\"needs\":[\"medical\"],\"dedupe_key\":\"pine\"},''
     @ ''{\"location_text\":\"Pine St\",\"severity\":\"high\",\"needs\":[\"medical\"],\"dedupe_key\":\"pine\"}''
     @ '']}''"

definition twicePine :: "nat \<Rightarrow> Attempt" where
  "twicePine i = Reply (Some twicePineJson)"

text \<open>An array of two reports in a code fence; the same array between tags after prose; and a
  fenced object that holds tags inside a string.\<close>

definition twoReports :: string where
  "twoReports = ''[{\"location_text\":\"Pine St\"},{\"location_text\":\"Oak Ave\"}]''"

definition fencedArray :: string where
  "fencedArray = fence @ ''json'' @ [CHR 0x0A] @ twoReports @ [CHR 0x0A] @ fence"

definition taggedArray :: string where
  "taggedArray = ''Result: <json>'' @ twoReports @ ''</json>''"

definition fencedTagInside :: string where
  "fencedTagInside =
     fence @ [CHR 0x0A] @ ''{\"reports\":[],\"note\":\"<json>[1]</json>\"}'' @ [CHR 0x0A] @ fence"

text \<open>First answer is a valid report, the second request is rejected by the network.\<close>

definition pineThenRejected :: "nat \<Rightarrow> Attempt" where
  "pineThenRejected i = (if i = 0 then Reply (Some pineJson) else FetchRejected)"

text \<open>Two candidates with the location Oak Ave around one with the location Pine St.\<close>

definition oakReport :: ExtractedReport where
  "oakReport =
     \<lparr>location_text = Some ''Oak Ave'', time_iso = None, severity = Some ''low'',
      needs = [], dedupe_key = None, rnotes = None\<rparr>"


section \<open>Properties\<close>


lemma of_char_lowerChar:
  "(of_char (lowerChar c) :: nat) =
     (if (65 \<le> (of_char c :: nat) \<and> (of_char c :: nat) \<le> 90)
         \<or> (192 \<le> (of_char c :: nat) \<and> (of_char c :: nat) \<le> 222 \<and> (of_char c :: nat) \<noteq> 215)
      then of_char c + 32 else of_char c)"
proof -
  have "n \<le> 222 \<Longrightarrow> (n + 32) mod 256 = n + 32" for n :: nat
    by simp
  then show ?thesis
    unfolding lowerChar_def Let_def by (simp only: of_char_of split: if_splits) auto
qed

lemma isSpace_lowerChar: "isSpace (lowerChar c) = isSpace c"
  unfolding isSpace_def of_char_lowerChar by auto

lemma lowerChar_idem: "lowerChar (lowerChar c) = lowerChar c"
proof -
  have "(of_char (lowerChar (lowerChar c)) :: nat) = of_char (lowerChar c)"
    unfolding of_char_lowerChar [of "lowerChar c"] unfolding of_char_lowerChar [of c] by auto
  then show ?thesis by (metis char_of_char)
qed

lemma toLowerCase_idem: "toLowerCase (toLowerCase s) = toLowerCase s"
  by (simp add: toLowerCase_def lowerChar_idem)

lemma dropWhile_isSpace_lower:
  "dropWhile isSpace (map lowerChar s) = map lowerChar (dropWhile isSpace s)"
  by (induction s) (simp_all add: isSpace_lowerChar)

lemma toLowerCase_trim: "toLowerCase (trim s) = trim (toLowerCase s)"
  by (simp add: toLowerCase_def trim_def dropWhile_isSpace_lower rev_map)

lemma last_dropWhile_ne: "dropWhile P xs \<noteq> [] \<Longrightarrow> last (dropWhile P xs) = last xs"
  by (induction xs) (auto split: if_splits)

lemma trim_ends:
  assumes "trim s \<noteq> []"
  shows "\<not> isSpace (hd (trim s))" and "\<not> isSpace (last (trim s))"
proof -
  let ?ys = "dropWhile isSpace s"
  let ?zs = "dropWhile isSpace (rev ?ys)"
  from assms have zs: "?zs \<noteq> []" by (simp add: trim_def)
  have ys: "?ys \<noteq> []"
  proof
    assume "?ys = []"
    then have "?zs = []" by (metis dropWhile.simps(1) rev.simps(1))
    with zs show False by (rule notE)
  qed
  have "hd (trim s) = last ?zs" using zs by (simp add: trim_def hd_rev)
  also have "\<dots> = last (rev ?ys)" using zs by (simp add: last_dropWhile_ne)
  also have "\<dots> = hd ?ys" using ys by (simp add: last_rev)
  finally show "\<not> isSpace (hd (trim s))" using ys hd_dropWhile by metis
  have "last (trim s) = hd ?zs" using zs by (simp add: trim_def last_rev)
  then show "\<not> isSpace (last (trim s))" using zs hd_dropWhile by metis
qed

lemma dropWhile_hd_fixed: "xs \<noteq> [] \<Longrightarrow> \<not> P (hd xs) \<Longrightarrow> dropWhile P xs = xs"
  by (cases xs) auto

lemma trim_fixed:
  assumes "s \<noteq> []" "\<not> isSpace (hd s)" "\<not> isSpace (last s)"
  shows "trim s = s"
proof -
  have 1: "dropWhile isSpace s = s" using assms by (simp add: dropWhile_hd_fixed)
  have "hd (rev s) = last s" using assms by (simp add: hd_rev)
  then have 2: "dropWhile isSpace (rev s) = rev s" using assms by (simp add: dropWhile_hd_fixed)
  show ?thesis by (simp add: trim_def 1 2)
qed

lemma trim_idem: "trim (trim s) = trim s"
proof (cases "trim s = []")
  case True
  have "trim [] = []" by (simp add: trim_def)
  with True show ?thesis by simp
next
  case False
  then show ?thesis by (intro trim_fixed trim_ends)
qed

lemma trim_lower_idem:
  "trim (toLowerCase (trim (toLowerCase s))) = trim (toLowerCase s)"
  by (simp add: toLowerCase_trim toLowerCase_idem trim_idem)


lemma canonTokens_fixed: "list_all needFixed canonTokens"
  unfolding canonTokens_def by code_simp

lemma canonicalNeed_cases: "canonicalNeed n \<in> set canonTokens \<or> canonicalNeed n = n"
  unfolding canonicalNeed_def canonTokens_def by simp

lemma canonicalNeed_idem: "canonicalNeed (canonicalNeed n) = canonicalNeed n"
  using canonicalNeed_cases [of n] canonTokens_fixed
  by (auto simp: list_all_iff needFixed_def)

lemma canonicalNeed_fixed:
  assumes "n = trim (toLowerCase raw)" "n \<noteq> []"
  shows "needFixed (canonicalNeed n)"
proof -
  from canonicalNeed_cases [of n] show ?thesis
  proof
    assume "canonicalNeed n \<in> set canonTokens"
    with canonTokens_fixed show ?thesis by (simp add: list_all_iff)
  next
    assume eq: "canonicalNeed n = n"
    with assms show ?thesis by (simp add: needFixed_def trim_lower_idem)
  qed
qed

lemma canonLoop_append: "canonLoop acc xs = acc @ canonLoop [] xs"
proof (induction xs arbitrary: acc)
  case Nil
  then show ?case by simp
next
  case (Cons x xs)
  show ?case
    using Cons.IH [of "acc @ [canonicalNeed (trim (toLowerCase x))]"]
      Cons.IH [of "[canonicalNeed (trim (toLowerCase x))]"] Cons.IH [of acc]
    by (simp add: Let_def)
qed

lemma canonLoop_all_fixed: "list_all needFixed (canonLoop [] xs)"
proof (induction xs)
  case Nil
  then show ?case by simp
next
  case (Cons x xs)
  then show ?case
    using canonLoop_append [of "[canonicalNeed (trim (toLowerCase x))]" xs]
    by (simp add: Let_def canonicalNeed_fixed)
qed

lemma canonLoop_of_fixed: "list_all needFixed ys \<Longrightarrow> canonLoop [] ys = ys"
proof (induction ys)
  case Nil
  then show ?case by simp
next
  case (Cons y ys)
  then show ?case
    using canonLoop_append [of "[y]" ys] by (simp add: needFixed_def)
qed

lemma foldl_setAdd_snoc:
  "foldl setAdd acc (xs @ [x]) =
     (if x \<in> set (foldl setAdd acc xs) then foldl setAdd acc xs else foldl setAdd acc xs @ [x])"
  by simp

lemma set_foldl_setAdd: "set (foldl setAdd acc xs) = set acc \<union> set xs"
  by (induction xs arbitrary: acc) auto

lemma distinct_foldl_setAdd: "distinct acc \<Longrightarrow> distinct (foldl setAdd acc xs)"
  by (induction xs arbitrary: acc) auto

lemma foldl_setAdd_distinct: "distinct (acc @ xs) \<Longrightarrow> foldl setAdd acc xs = acc @ xs"
  by (induction xs arbitrary: acc) auto

lemma set_arrayFromSet: "set (arrayFromSet xs) = set xs"
  by (simp add: arrayFromSet_def set_foldl_setAdd)

lemma distinct_arrayFromSet: "distinct (arrayFromSet xs)"
  by (simp add: arrayFromSet_def distinct_foldl_setAdd)

lemma arrayFromSet_distinct: "distinct xs \<Longrightarrow> arrayFromSet xs = xs"
  using foldl_setAdd_distinct [of "[]" xs] by (simp add: arrayFromSet_def)

lemma arrayFromSet_snoc:
  "arrayFromSet (xs @ [x]) =
     (if x \<in> set xs then arrayFromSet xs else arrayFromSet xs @ [x])"
  by (simp add: arrayFromSet_def set_foldl_setAdd)

lemma normalizeNeeds_fixed: "list_all needFixed (normalizeNeeds xs)"
  using canonLoop_all_fixed [of xs]
  by (simp add: normalizeNeeds_def list_all_iff set_arrayFromSet)

lemma normalizeNeeds_idem: "normalizeNeeds (normalizeNeeds xs) = normalizeNeeds xs"
proof -
  have "canonLoop [] (normalizeNeeds xs) = normalizeNeeds xs"
    by (rule canonLoop_of_fixed) (rule normalizeNeeds_fixed)
  moreover have "distinct (normalizeNeeds xs)"
    by (simp add: normalizeNeeds_def distinct_arrayFromSet)
  ultimately show ?thesis
    using arrayFromSet_distinct [of "normalizeNeeds xs"]
    by (simp add: normalizeNeeds_def [of "normalizeNeeds xs"])
qed

lemma canonLoop_snoc:
  "canonLoop [] (xs @ [x]) =
     (if trim (toLowerCase x) = [] then canonLoop [] xs
      else canonLoop [] xs @ [canonicalNeed (trim (toLowerCase x))])"
proof (induction xs)
  case Nil
  then show ?case by (simp add: Let_def)
next
  case (Cons y ys)
  then show ?case
    using canonLoop_append [of "[canonicalNeed (trim (toLowerCase y))]" "ys @ [x]"]
      canonLoop_append [of "[canonicalNeed (trim (toLowerCase y))]" "ys"]
    by (simp add: Let_def)
qed

lemma normalizeNeeds_snoc:
  "normalizeNeeds (xs @ [x]) =
     (let n = trim (toLowerCase x)
      in if n = [] \<or> canonicalNeed n \<in> set (normalizeNeeds xs) then normalizeNeeds xs
         else normalizeNeeds xs @ [canonicalNeed n])"
  by (simp add: normalizeNeeds_def canonLoop_snoc arrayFromSet_snoc set_arrayFromSet Let_def)

subsection \<open>normalizeNeeds is idempotent\<close>

text \<open>
  Claim C6. Normalising a normalised list of needs gives the same list, in contents and
  order. The result has no duplicate, and the tokens stand in the order of their first
  occurrence: a further phrase adds its canonical token at the end, unless the phrase is
  blank or the token is there already.
\<close>

theorem normalizeNeeds_idempotent:
  "normalizeNeeds (normalizeNeeds xs) = normalizeNeeds xs
   \<and> distinct (normalizeNeeds xs)
   \<and> normalizeNeeds [] = []
   \<and> normalizeNeeds (xs @ [x]) =
       (let n = trim (toLowerCase x)
        in if n = [] \<or> canonicalNeed n \<in> set (normalizeNeeds xs) then normalizeNeeds xs
           else normalizeNeeds xs @ [canonicalNeed n])"
proof -
  have "distinct (normalizeNeeds xs)"
    by (simp add: normalizeNeeds_def distinct_arrayFromSet)
  moreover have "normalizeNeeds [] = []"
    by (simp add: normalizeNeeds_def arrayFromSet_def)
  ultimately show ?thesis
    using normalizeNeeds_idem [of xs] normalizeNeeds_snoc [of xs x] by simp
qed

subsection \<open>computeRiskScore\<close>

lemma computeRiskScore_no_time:
  "computeRiskScore hostSort now dp sev nds None =
     (case foldl addWeight (Some (case sev of None \<Rightarrow> 0 | Some s \<Rightarrow> SEVERITY_WEIGHT s))
             (topWeights hostSort (normalizeNeeds nds)) of
        None \<Rightarrow> NaN
      | Some score \<Rightarrow> Num (of_int (max 0 (min 100 (mathRound (fmul (of_nat score) d0_9))))))"
  by (simp add: computeRiskScore_def timeDecay_def Let_def split: option.splits)

lemma critical_example_steps:
  "SEVERITY_WEIGHT Critical = 80"
  "normalizeNeeds [''medical'', ''rescue''] = [''medical'', ''rescue'']"
  "topWeights hostSort [''medical'', ''rescue''] = [Weight 25, Weight 20]"
  "foldl addWeight (Some 80) [Weight 25, Weight 20] = Some 125"
  "timeDecay now dp None 125 = 225 / 2"
  "mathRound (225 / 2) = 113"
  by code_simp+

lemma critical_example_results:
  "computeRiskScore hostSort now dp (Some Critical) [''medical'', ''rescue''] None = Num 100"
  "computeRiskScore hostSort now dp (Some Critical) [''medical''] None = Num 95"
  "computeRiskScore hostSort now dp (Some Low) [''medical'', ''rescue'', ''fire''] None = Num 50"
  by code_simp+

text \<open>
  Claim C8. For severity critical, needs medical and rescue and no timestamp, the score is
  100 whatever the clock: the base is 80, the two need weights are 25 and 20, the sum 125
  times the penalty 0.9 of an absent timestamp is 112.5, which \<open>Math.round\<close> makes 113 and the
  clamp makes 100. Whenever the timestamp is absent the score is the clamped rounding of the
  sum times 0.9, which shows where the clamp does not hide it: critical with medical alone
  gives 95, and of three needs only the two heaviest count.
\<close>

theorem computeRiskScore_critical_example:
  "computeRiskScore hostSort now dp (Some Critical) [''medical'', ''rescue''] None = Num 100
   \<and> SEVERITY_WEIGHT Critical = 80
   \<and> topWeights hostSort (normalizeNeeds [''medical'', ''rescue'']) = [Weight 25, Weight 20]
   \<and> foldl addWeight (Some (SEVERITY_WEIGHT Critical))
         (topWeights hostSort (normalizeNeeds [''medical'', ''rescue''])) = Some 125
   \<and> timeDecay now dp None 125 = 225 / 2
   \<and> mathRound (timeDecay now dp None 125) = 113
   \<and> computeRiskScore hostSort now dp sev nds None =
       (case foldl addWeight (Some (case sev of None \<Rightarrow> 0 | Some s \<Rightarrow> SEVERITY_WEIGHT s))
               (topWeights hostSort (normalizeNeeds nds)) of
          None \<Rightarrow> NaN
        | Some score \<Rightarrow> Num (of_int (max 0 (min 100 (mathRound (fmul (of_nat score) d0_9))))))
   \<and> computeRiskScore hostSort now dp (Some Critical) [''medical''] None = Num 95
   \<and> computeRiskScore hostSort now dp (Some Low) [''medical'', ''rescue'', ''fire''] None = Num 50"
proof -
  note s = critical_example_steps
  have "topWeights hostSort (normalizeNeeds [''medical'', ''rescue'']) = [Weight 25, Weight 20]"
    by (simp only: s)
  moreover have "foldl addWeight (Some (SEVERITY_WEIGHT Critical))
         (topWeights hostSort (normalizeNeeds [''medical'', ''rescue''])) = Some 125"
    by (simp only: s)
  moreover have "mathRound (timeDecay now dp None 125) = 113"
    by (simp only: s)
  ultimately show ?thesis
    using s(1) s(5) computeRiskScore_no_time [of hostSort now dp sev nds]
      critical_example_results
    by blast
qed

subsection \<open>Pre-normalised needs\<close>

text \<open>
  Claim C10. \<open>computeRiskScore\<close> and \<open>suggestFacilities\<close> give the same result for a list of
  needs and for its normalisation, for every severity, time value, clock, directory and
  limit, on every host.
\<close>

theorem needs_prenormalization_irrelevant:
  "computeRiskScore hostSort now dp sev (normalizeNeeds nds) tm =
     computeRiskScore hostSort now dp sev nds tm
   \<and> suggestFacilities collate (normalizeNeeds nds) facilities limit =
     suggestFacilities collate nds facilities limit"
  by (simp add: computeRiskScore_def suggestFacilities_def normalizeNeeds_idem)



subsection \<open>suggestFacilities\<close>

lemma mset_insertBy: "mset (insertBy cmp x ys) = add_mset x (mset ys)"
  by (induction ys) auto

lemma mset_sortBy: "mset (sortBy cmp xs) = mset xs"
  by (induction xs) (auto simp: sortBy_def mset_insertBy)













lemma set_sortBy: "set (sortBy cmp xs) = set xs"
  by (rule mset_eq_setD) (rule mset_sortBy)


lemma members_not_own_all:
  "list_all (\<lambda>n. map_of NEED_TO_FACILITY n = None \<and> map_of NEED_TO_CAPS n = None
                  \<and> map_of NEED_WEIGHT n = None) objectPrototypeMembers"
  by code_simp

lemma members_not_own:
  assumes "n \<in> set objectPrototypeMembers"
  shows "map_of NEED_TO_FACILITY n = None" and "map_of NEED_TO_CAPS n = None"
    and "map_of NEED_WEIGHT n = None"
  using assms members_not_own_all by (simp_all add: list_all_iff)

lemma orEmpty_getProp:
  "orEmpty (getProp obj n) =
     (case map_of obj n of
        Some xs \<Rightarrow> Inr xs
      | None \<Rightarrow> if n \<in> set objectPrototypeMembers then Inl TypeError else Inr [])"
  by (simp add: orEmpty_def getProp_def split: option.splits)


lemma desiredLoop_inherited:
  "n \<in> set ns \<Longrightarrow> n \<in> set objectPrototypeMembers \<Longrightarrow> desiredLoop ns (ts, cs) = Inl TypeError"
proof (induction ns arbitrary: ts cs)
  case Nil
  then show ?case by simp
next
  case (Cons m ns)
  show ?case
  proof (cases "m \<in> set objectPrototypeMembers")
    case True
    then show ?thesis by (simp add: orEmpty_getProp members_not_own)
  next
    case False
    with Cons.prems have "n \<in> set ns" by auto
    then have "desiredLoop ns (ts', cs') = Inl TypeError" for ts' cs'
      using Cons.prems(2) by (rule Cons.IH)
    with False show ?thesis by (simp add: orEmpty_getProp split: option.splits)
  qed
qed






lemma suggestFacilities_throws:
  assumes "''constructor'' \<in> set (normalizeNeeds nds) \<or> ''__proto__'' \<in> set (normalizeNeeds nds)"
  shows "suggestFacilities collate nds facilities limit = Inl TypeError"
proof -
  have "''constructor'' \<in> set objectPrototypeMembers" "''__proto__'' \<in> set objectPrototypeMembers"
    by code_simp+
  with assms obtain n where n: "n \<in> set (normalizeNeeds nds)" "n \<in> set objectPrototypeMembers"
    by blast
  then have "desiredLoop (normalizeNeeds nds) ([], []) = Inl TypeError"
    by (rule desiredLoop_inherited)
  moreover from n(1) have "normalizeNeeds nds \<noteq> []" by auto
  ultimately show ?thesis by (simp add: suggestFacilities_def)
qed













text \<open>
  Claim C9 as stated fails for a negative limit, which \<open>slice\<close> counts from the end: with
  limit -1 and two facilities of positive score one facility is returned, which is more than
  the limit. And for a need that names a member of \<open>Object.prototype\<close> the function throws
  instead of returning a list.
\<close>

theorem suggestFacilities_limit_counterexample:
  "suggestFacilities length [''medical''] [exHospital, exClinic] (Finite (- 1)) = Inr [exClinic]
   \<and> \<not> atMost (length [exClinic]) (Finite (- 1))
   \<and> facilityScore [''medical''] exClinic = 46
   \<and> facilityScore [''medical''] exHospital = 38
   \<and> suggestFacilities length [''constructor''] [exHospital, exShelter] (Finite 3) = Inl TypeError"
  by code_simp


subsection \<open>parseModelJson\<close>

lemma firstParsed_append:
  "firstParsed jp (xs @ ys) =
     (case firstParsed jp xs of Some v \<Rightarrow> Some v | None \<Rightarrow> firstParsed jp ys)"
  by (induction xs) (simp_all split: option.splits)

lemma firstParsed_None: "(firstParsed jp xs = None) = (\<forall>x \<in> set xs. jp x = None)"
  by (induction xs) (simp_all split: option.splits)

lemma firstParsed_arrayFromSet: "firstParsed jp (arrayFromSet xs) = firstParsed jp xs"
proof (induction xs rule: rev_induct)
  case Nil
  then show ?case by (simp add: arrayFromSet_def)
next
  case (snoc x xs)
  show ?case
  proof (cases "x \<in> set xs")
    case True
    then have "firstParsed jp xs = None \<Longrightarrow> jp x = None"
      by (simp add: firstParsed_None)
    then have "firstParsed jp (xs @ [x]) = firstParsed jp xs"
      by (cases "firstParsed jp xs") (simp_all add: firstParsed_append)
    with True snoc show ?thesis by (simp add: arrayFromSet_snoc)
  next
    case False
    with snoc show ?thesis by (simp add: arrayFromSet_snoc firstParsed_append)
  qed
qed

lemma firstParsed_twice: "firstParsed jp (x # x # xs) = firstParsed jp (x # xs)"
  by (simp split: option.splits)

lemma firstParsed_candidates:
  "firstParsed jp (filter (\<lambda>c. c \<noteq> []) (candidates raw)) =
   firstParsed jp (filter (\<lambda>c. c \<noteq> [])
     ([raw, stripCodeFences raw]
      @ optList (betweenTags raw ''<json>'' ''</json>'')
      @ optList (extractBalancedJson raw)))"
proof (cases "stripCodeFences raw = raw")
  case True
  then show ?thesis
    by (cases "raw = []") (simp_all add: candidates_def split: option.splits)
next
  case False
  then show ?thesis by (simp add: candidates_def)
qed

lemma parseModelJson_unfold:
  "parseModelJson jp raw =
     (case firstParsed jp (filter (\<lambda>c. c \<noteq> [])
        ([raw, stripCodeFences raw]
         @ optList (betweenTags raw ''<json>'' ''</json>'')
         @ optList (case balancedFrom (CHR ''{'') (CHR ''}'') raw of
                      Some r \<Rightarrow> Some r
                    | None \<Rightarrow> balancedFrom (CHR ''['') (CHR '']'') raw))) of
        Some parsed \<Rightarrow> Inr (coerceToExtractResponse parsed)
      | None \<Rightarrow> Inl InvalidJson)"
  unfolding parseModelJson_def Let_def firstParsed_arrayFromSet firstParsed_candidates
    extractBalancedJson_def by (rule refl)

lemma pine_candidates:
  "jsonParse pineFenced = None"
  "stripCodeFences pineFenced = ''Here is the data:'' @ [CHR 0x0A]
     @ ''{\"reports\":[{\"location_text\":\"Pine St\",\"severity\":\"high\",\"needs\":[\"medical\"]}]}''"
  "jsonParse (stripCodeFences pineFenced) = None"
  "betweenTags pineFenced ''<json>'' ''</json>'' = None"
  "extractBalancedJson pineFenced =
     Some ''{\"reports\":[{\"location_text\":\"Pine St\",\"severity\":\"high\",\"needs\":[\"medical\"]}]}''"
  by code_simp+

lemma pine_result:
  "parseModelJson jsonParse pineFenced =
     Inr [JObject [(''location_text'', JString ''Pine St''), (''severity'', JString ''high''),
                   (''needs'', JArray [JString ''medical''])]]"
  by code_simp

lemma two_reports:
  "extractBalancedJson twoReportsThenProse = Some ''{\"location_text\":\"Pine St\"}''"
  "firstBalancedSpan twoReportsThenProse =
     Some ''[{\"location_text\":\"Pine St\"},{\"location_text\":\"Oak Ave\"}]''"
  "parseModelJson jsonParse twoReportsThenProse =
     Inr [JObject [(''location_text'', JString ''Pine St'')]]"
  "map_option coerceToExtractResponse
     (jsonParse ''[{\"location_text\":\"Pine St\"},{\"location_text\":\"Oak Ave\"}]'') =
     Some [JObject [(''location_text'', JString ''Pine St'')],
           JObject [(''location_text'', JString ''Oak Ave'')]]"
  by code_simp+

lemma order_examples:
  "parseModelJson jsonParse pineJson =
     Inr [JObject [(''location_text'', JString ''Pine St''), (''time_iso'', JNull),
                   (''severity'', JString ''high''), (''needs'', JArray [JString ''medical''])]]"
  "jsonParse fencedArray = None"
  "stripCodeFences fencedArray = twoReports"
  "extractBalancedJson fencedArray = Some ''{\"location_text\":\"Pine St\"}''"
  "parseModelJson jsonParse fencedArray =
     Inr [JObject [(''location_text'', JString ''Pine St'')],
          JObject [(''location_text'', JString ''Oak Ave'')]]"
  "jsonParse taggedArray = None"
  "stripCodeFences taggedArray = taggedArray"
  "betweenTags taggedArray ''<json>'' ''</json>'' = Some twoReports"
  "extractBalancedJson taggedArray = Some ''{\"location_text\":\"Pine St\"}''"
  "parseModelJson jsonParse taggedArray =
     Inr [JObject [(''location_text'', JString ''Pine St'')],
          JObject [(''location_text'', JString ''Oak Ave'')]]"
  "jsonParse fencedTagInside = None"
  "stripCodeFences fencedTagInside = ''{\"reports\":[],\"note\":\"<json>[1]</json>\"}''"
  "betweenTags fencedTagInside ''<json>'' ''</json>'' = Some ''[1]''"
  "parseModelJson jsonParse fencedTagInside = Inr []"
  by code_simp+

text \<open>
  Claim C7, amended. \<open>parseModelJson\<close> returns the parse of the first string that
  \<open>JSON.parse\<close> accepts among, in this order and leaving out empty strings: the raw text, the
  text with its code fences stripped, the text between the first \<open><json>\<close> and the next
  \<open></json>\<close>, and the balanced span that starts at the first opening brace or, when the
  text has no opening brace or the brace's span never closes, at the first opening bracket.
  When none parses it throws. For the fenced example the raw text and the stripped text do
  not parse, there are no tags, and the balanced span gives exactly one report, with
  location text Pine St. Further examples show each candidate winning over the later ones:
  a text that parses as it is; a fenced array, where the stripped text gives both reports
  and the balanced span would give one; the same array between tags; and a fenced object
  with tags inside a string, where the stripped text wins over the tagged text.
\<close>

theorem parseModelJson_candidate_order:
  "parseModelJson jp raw =
     (case firstParsed jp (filter (\<lambda>c. c \<noteq> [])
        ([raw, stripCodeFences raw]
         @ optList (betweenTags raw ''<json>'' ''</json>'')
         @ optList (case balancedFrom (CHR ''{'') (CHR ''}'') raw of
                      Some r \<Rightarrow> Some r
                    | None \<Rightarrow> balancedFrom (CHR ''['') (CHR '']'') raw))) of
        Some parsed \<Rightarrow> Inr (coerceToExtractResponse parsed)
      | None \<Rightarrow> Inl InvalidJson)
   \<and> jsonParse pineFenced = None
   \<and> stripCodeFences pineFenced = ''Here is the data:'' @ [CHR 0x0A]
       @ ''{\"reports\":[{\"location_text\":\"Pine St\",\"severity\":\"high\",\"needs\":[\"medical\"]}]}''
   \<and> jsonParse (stripCodeFences pineFenced) = None
   \<and> betweenTags pineFenced ''<json>'' ''</json>'' = None
   \<and> extractBalancedJson pineFenced =
       Some ''{\"reports\":[{\"location_text\":\"Pine St\",\"severity\":\"high\",\"needs\":[\"medical\"]}]}''
   \<and> parseModelJson jsonParse pineFenced =
       Inr [JObject [(''location_text'', JString ''Pine St''), (''severity'', JString ''high''),
                     (''needs'', JArray [JString ''medical''])]]
   \<and> typedParse jsonParse pineFenced =
       Some [\<lparr>location_text = Some ''Pine St'', time_iso = None, severity = Some ''high'',
              needs = [''medical''], dedupe_key = None, rnotes = None\<rparr>]
   \<and> parseModelJson jsonParse pineJson =
       Inr [JObject [(''location_text'', JString ''Pine St''), (''time_iso'', JNull),
                     (''severity'', JString ''high''), (''needs'', JArray [JString ''medical''])]]
   \<and> jsonParse fencedArray = None
   \<and> stripCodeFences fencedArray = twoReports
   \<and> extractBalancedJson fencedArray = Some ''{\"location_text\":\"Pine St\"}''
   \<and> parseModelJson jsonParse fencedArray =
       Inr [JObject [(''location_text'', JString ''Pine St'')],
            JObject [(''location_text'', JString ''Oak Ave'')]]
   \<and> jsonParse taggedArray = None
   \<and> stripCodeFences taggedArray = taggedArray
   \<and> betweenTags taggedArray ''<json>'' ''</json>'' = Some twoReports
   \<and> extractBalancedJson taggedArray = Some ''{\"location_text\":\"Pine St\"}''
   \<and> parseModelJson jsonParse taggedArray =
       Inr [JObject [(''location_text'', JString ''Pine St'')],
            JObject [(''location_text'', JString ''Oak Ave'')]]
   \<and> jsonParse fencedTagInside = None
   \<and> stripCodeFences fencedTagInside = ''{\"reports\":[],\"note\":\"<json>[1]</json>\"}''
   \<and> betweenTags fencedTagInside ''<json>'' ''</json>'' = Some ''[1]''
   \<and> parseModelJson jsonParse fencedTagInside = Inr []"
proof -
  have "typedParse jsonParse pineFenced =
       Some [\<lparr>location_text = Some ''Pine St'', time_iso = None, severity = Some ''high'',
              needs = [''medical''], dedupe_key = None, rnotes = None\<rparr>]"
    by code_simp
  then show ?thesis
    using parseModelJson_unfold [of jp raw] pine_candidates pine_result order_examples
    by (intro conjI) assumption+
qed

text \<open>
  Claim C7 as stated fails where a bracket opens before the first brace: for an array of two
  reports followed by prose, the first balanced span is the array, but the span the code
  tries is the first object, and one report is returned instead of two.
\<close>

theorem parseModelJson_first_span_counterexample:
  "extractBalancedJson twoReportsThenProse = Some ''{\"location_text\":\"Pine St\"}''
   \<and> firstBalancedSpan twoReportsThenProse =
       Some ''[{\"location_text\":\"Pine St\"},{\"location_text\":\"Oak Ave\"}]''
   \<and> extractBalancedJson twoReportsThenProse \<noteq> firstBalancedSpan twoReportsThenProse
   \<and> parseModelJson jsonParse twoReportsThenProse =
       Inr [JObject [(''location_text'', JString ''Pine St'')]]
   \<and> map_option coerceToExtractResponse
       (jsonParse ''[{\"location_text\":\"Pine St\"},{\"location_text\":\"Oak Ave\"}]'') =
       Some [JObject [(''location_text'', JString ''Pine St'')],
             JObject [(''location_text'', JString ''Oak Ave'')]]"
proof -
  have "extractBalancedJson twoReportsThenProse \<noteq> firstBalancedSpan twoReportsThenProse"
    unfolding two_reports by simp
  then show ?thesis using two_reports by blast
qed


subsection \<open>needsConsensus\<close>

lemma countsGet_countsSet:
  "countsGet (countsSet counts key) x = countsGet counts x + (if x = key then 1 else 0)"
  by (induction counts key rule: countsSet.induct) (auto simp: countsGet_def)

lemma countsGet_countNeed:
  "countsGet (countNeed counts n) key =
     countsGet counts key + (if key \<noteq> [] \<and> trim (toLowerCase n) = key then 1 else 0)"
  by (auto simp: countNeed_def Let_def countsGet_countsSet)

lemma countsGet_foldl_countNeed:
  "key \<noteq> [] \<Longrightarrow>
   countsGet (foldl countNeed counts list) key =
     countsGet counts key + count_list (map (\<lambda>n. trim (toLowerCase n)) list) key"
  by (induction list arbitrary: counts) (simp_all add: countsGet_countNeed)

lemma countsGet_foldl_lists:
  "key \<noteq> [] \<Longrightarrow>
   countsGet (foldl (\<lambda>counts list. foldl countNeed counts list) counts allNeeds) key =
     countsGet counts key
     + sum_list (map (\<lambda>list. count_list (map (\<lambda>n. trim (toLowerCase n)) list) key) allNeeds)"
  by (induction allNeeds arbitrary: counts) (simp_all add: countsGet_foldl_countNeed)


lemma ceil_half: "\<lceil>(of_nat k :: rat) / 2\<rceil> = int ((k + 1) div 2)"
  by linarith

lemma count_list_pos: "x \<in> set xs \<Longrightarrow> 1 \<le> count_list xs x"
  by (induction xs) auto

lemma listsWith_Cons:
  "listsWith key (l # ls) =
     (if key \<in> set (map (\<lambda>n. trim (toLowerCase n)) l) then 1 else 0) + listsWith key ls"
  by (simp add: listsWith_def)

lemma listsWith_le_occurrences:
  "listsWith key allNeeds \<le>
     sum_list (map (\<lambda>list. count_list (map (\<lambda>n. trim (toLowerCase n)) list) key) allNeeds)"
proof (induction allNeeds)
  case Nil
  then show ?case by (simp add: listsWith_def)
next
  case (Cons l ls)
  have "(if key \<in> set (map (\<lambda>n. trim (toLowerCase n)) l) then 1 else 0)
        \<le> count_list (map (\<lambda>n. trim (toLowerCase n)) l) key"
    using count_list_pos [of key "map (\<lambda>n. trim (toLowerCase n)) l"] by (simp split: if_splits)
  with Cons show ?case
    unfolding listsWith_Cons by (simp only: list.map sum_list.Cons add_mono)
qed

lemma listsWith_le_count:
  assumes "key \<noteq> []"
  shows "listsWith key allNeeds \<le> countsGet (countNeeds allNeeds) key"
proof -
  have "countsGet (countNeeds allNeeds) key =
      countsGet [] key
      + sum_list (map (\<lambda>list. count_list (map (\<lambda>n. trim (toLowerCase n)) list) key) allNeeds)"
    unfolding countNeeds_def using assms by (rule countsGet_foldl_lists)
  with listsWith_le_occurrences [of key allNeeds] show ?thesis by simp
qed

lemma countsGet_in_set:
  assumes "0 < countsGet counts key"
  shows "(key, countsGet counts key) \<in> set counts"
proof (cases "map_of counts key")
  case None
  with assms show ?thesis by (simp add: countsGet_def)
next
  case (Some c)
  then have "(key, c) \<in> set counts" by (rule map_of_SomeD)
  with Some show ?thesis by (simp add: countsGet_def)
qed

lemma needsConsensus_above:
  assumes "(key, c) \<in> set (countNeeds allNeeds)" and "\<lceil>(of_nat k :: rat) / 2\<rceil> \<le> int c"
  shows "key \<in> set (fst (needsConsensus allNeeds k))"
proof -
  let ?entries = "sortBy (\<lambda>a b. int (snd b) - int (snd a)) (countNeeds allNeeds)"
  let ?above = "map fst (filter (\<lambda>(need, c). int c \<ge> \<lceil>(of_nat k :: rat) / 2\<rceil>) ?entries)"
  from assms(1) have "(key, c) \<in> set ?entries" by (simp only: set_sortBy)
  with assms(2) have "(key, c) \<in> set (filter (\<lambda>(need, c). int c \<ge> \<lceil>(of_nat k :: rat) / 2\<rceil>) ?entries)"
    by simp
  then have in_above: "key \<in> set ?above" by (metis fst_conv image_eqI set_map)
  then have "?above \<noteq> []" by (metis empty_iff list.set(1))
  then have "fst (needsConsensus allNeeds k) = ?above"
    by (simp add: needsConsensus_def Let_def)
  with in_above show ?thesis by (simp only:)
qed


text \<open>
  Claim C5, amended. For every bucket and every \<open>k \<ge> 1\<close>, a non-empty need token (lower-cased
  and trimmed) that occurs in at least \<open>ceil(k/2)\<close> of the bucket's need lists is in the merged
  needs.
\<close>

theorem needsConsensus_majority_included:
  assumes "1 \<le> k" and "key \<noteq> []"
    and "\<lceil>(of_nat k :: rat) / 2\<rceil> \<le> int (listsWith key allNeeds)"
  shows "key \<in> set (fst (needsConsensus allNeeds k))"
proof -
  let ?c = "countsGet (countNeeds allNeeds) key"
  have le: "listsWith key allNeeds \<le> ?c" using assms(2) by (rule listsWith_le_count)
  from assms(1) have "1 \<le> \<lceil>(of_nat k :: rat) / 2\<rceil>" by (simp add: ceil_half)
  with assms(3) le have "0 < ?c" by linarith
  then have "(key, ?c) \<in> set (countNeeds allNeeds)" by (rule countsGet_in_set)
  moreover from assms(3) le have "\<lceil>(of_nat k :: rat) / 2\<rceil> \<le> int ?c" by linarith
  ultimately show ?thesis by (rule needsConsensus_above)
qed

theorem needsConsensus_majority_included_witness:
  "(1 :: nat) \<le> 3 \<and> ''medical'' \<noteq> []
   \<and> \<lceil>(of_nat 3 :: rat) / 2\<rceil>
       \<le> int (listsWith ''medical'' [[''Medical''], [''medical '', ''water''], [''food'']])
   \<and> ''medical'' \<in> set (fst (needsConsensus [[''Medical''], [''medical '', ''water''], [''food'']] 3))"
proof -
  have 1: "(1 :: nat) \<le> 3" by simp
  have 2: "''medical'' \<noteq> []" by simp
  have 3: "\<lceil>(of_nat 3 :: rat) / 2\<rceil>
       \<le> int (listsWith ''medical'' [[''Medical''], [''medical '', ''water''], [''food'']])"
    by code_simp
  from needsConsensus_majority_included [OF 1 2 3] 1 2 3 show ?thesis by blast
qed

text \<open>
  Claim C5 as stated fails for the empty token: a need that is blank lower-cases and trims
  to the empty string, which the loop skips, so it is never in the merged needs however
  many lists hold it.
\<close>

theorem needsConsensus_blank_counterexample:
  "trim (toLowerCase '' '') = []
   \<and> \<lceil>(of_nat 1 :: rat) / 2\<rceil> \<le> int (listsWith [] [['' '']])
   \<and> [] \<notin> set (fst (needsConsensus [['' '']] 1))
   \<and> needsConsensus [['' '']] 1 = ([], Num 0)"
  by code_simp


subsection \<open>The Bucketer and Voter\<close>

lemma minuteBucket_randomUUID:
  "minuteBucket (env\<lparr>randomUUID := u\<rparr>) t = minuteBucket env t"
  by (simp add: minuteBucket_def split: option.splits)

lemma makeKey_randomUUID: "makeKey (env\<lparr>randomUUID := u\<rparr>) r = makeKey env r"
  by (simp add: makeKey_def minuteBucket_randomUUID)

lemma addReport_randomUUID: "addReport (env\<lparr>randomUUID := u\<rparr>) = addReport env"
  by (intro ext) (simp add: addReport_def makeKey_randomUUID)

lemma eraseId_mergeBucket: "eraseId (mergeBucket u k b) = eraseId (mergeBucket u' k b)"
  by (simp add: eraseId_def mergeBucket_def Let_def)

lemma rid_mergeBucket: "rid (mergeBucket u k b) = u"
  by (simp add: mergeBucket_def Let_def)

lemma eraseId_mergeAll: "map eraseId (mergeAll u k bs) = map eraseId (mergeAll u' k bs)"
  unfolding mergeAll_def map_map comp_def
  by (rule map_cong [OF refl]) (auto simp: eraseId_mergeBucket [of "u _" k _ "u' _"])

lemma rid_mergeAll: "map rid (mergeAll u k bs) = map u [0..<length bs]"
proof -
  have "map rid (mergeAll u k bs) = map (\<lambda>p. u (fst p)) (enumerate 0 bs)"
    unfolding mergeAll_def map_map comp_def
    by (rule map_cong [OF refl]) (auto simp: rid_mergeBucket)
  also have "\<dots> = map (u \<circ> fst) (enumerate 0 bs)" by (simp only: comp_def)
  also have "\<dots> = map u (map fst (enumerate 0 bs))" by (rule map_map [symmetric])
  also have "\<dots> = map u [0..<length bs]" by (simp only: map_fst_enumerate add_0)
  finally show ?thesis .
qed

lemma keys_addReport: "map fst (addReport env bs rep) = setAdd (map fst bs) (makeKey env rep)"
proof -
  have "map fst (map (\<lambda>(k, b). if k = key then (k, f b) else (k, b)) xs) = map fst xs"
    for key :: string and f :: "Bucket \<Rightarrow> Bucket" and xs
    by (induction xs) auto
  then show ?thesis by (simp add: addReport_def Let_def)
qed

lemma keys_foldl_addReport:
  "map fst (foldl (addReport env) bs cands) = foldl setAdd (map fst bs) (map (makeKey env) cands)"
proof (induction cands arbitrary: bs)
  case Nil
  then show ?case by simp
next
  case (Cons c cands)
  show ?case unfolding foldl_Cons list.map Cons.IH keys_addReport ..
qed

lemma keys_buckets:
  "map fst (foldl (addReport env) [] cands) = arrayFromSet (map (makeKey env) cands)"
  using keys_foldl_addReport [of env "[]" cands] by (simp add: arrayFromSet_def)

lemma location_text_mergeBucket: "location_text (mergeBucket u k b) = fst (majority (locs b))"
  by (simp add: mergeBucket_def Let_def)

lemma location_text_mergeAll:
  "map location_text (mergeAll u k bs) = map (\<lambda>p. fst (majority (locs (snd p)))) bs"
proof -
  have "map location_text (mergeAll u k bs)
      = map (\<lambda>p. fst (majority (locs (snd (snd p))))) (enumerate 0 bs)"
    unfolding mergeAll_def map_map comp_def
    by (rule map_cong [OF refl]) (auto simp: location_text_mergeBucket)
  also have "\<dots> = map ((\<lambda>p. fst (majority (locs (snd p)))) \<circ> snd) (enumerate 0 bs)"
    by (simp only: comp_def)
  also have "\<dots> = map (\<lambda>p. fst (majority (locs (snd p)))) (map snd (enumerate 0 bs))"
    by (rule map_map [symmetric])
  also have "\<dots> = map (\<lambda>p. fst (majority (locs (snd p)))) bs"
    by (simp only: map_snd_enumerate)
  finally show ?thesis .
qed

lemma oak_pine_oak:
  "map location_text (bucketAndVote (exEnv twicePine) 3 [oakReport, pineReport, oakReport])
     = [Some ''Oak Ave'', Some ''Pine St'']"
  unfolding bucketAndVote_def location_text_mergeAll by code_simp

text \<open>
  Claim C4, amended. For a fixed ordered list of candidate reports and a fixed \<open>k\<close>, the
  merged reports are the same whatever identifiers are drawn, apart from the field \<open>id\<close>;
  the \<open>id\<close> of the \<open>i\<close>-th merged report is the \<open>i\<close>-th identifier drawn. There is one
  merged report for each bucket, and the buckets come in the order in which their keys first
  occur among the candidates: for candidates at Oak Ave, Pine St and Oak Ave the merged
  report for Oak Ave comes first.
\<close>

theorem bucketAndVote_deterministic_up_to_id:
  "map eraseId (bucketAndVote (env\<lparr>randomUUID := u\<rparr>) k cands)
     = map eraseId (bucketAndVote env k cands)
   \<and> map rid (bucketAndVote env k cands)
     = map (randomUUID env) [0..<length (bucketAndVote env k cands)]
   \<and> length (bucketAndVote env k cands) = length (foldl (addReport env) [] cands)
   \<and> map fst (foldl (addReport env) [] cands) = arrayFromSet (map (makeKey env) cands)
   \<and> map location_text (bucketAndVote (exEnv twicePine) 3 [oakReport, pineReport, oakReport])
     = [Some ''Oak Ave'', Some ''Pine St'']"
proof -
  have len: "length (bucketAndVote env k cands) = length (foldl (addReport env) [] cands)"
    by (simp add: bucketAndVote_def mergeAll_def)
  have "map eraseId (bucketAndVote (env\<lparr>randomUUID := u\<rparr>) k cands)
     = map eraseId (bucketAndVote env k cands)"
    unfolding bucketAndVote_def addReport_randomUUID by (simp add: eraseId_mergeAll [of u])
  moreover have "map rid (bucketAndVote env k cands)
     = map (randomUUID env) [0..<length (bucketAndVote env k cands)]"
    unfolding len unfolding bucketAndVote_def by (rule rid_mergeAll)
  ultimately show ?thesis using len keys_buckets [of env cands] oak_pine_oak by blast
qed

text \<open>
  Claim C4 as stated fails: every merged report carries a freshly drawn identifier, so two
  runs on the same candidates give different records.
\<close>

theorem bucketAndVote_id_counterexample:
  "bucketAndVote (exEnv twicePine) 1 [pineReport]
     \<noteq> bucketAndVote ((exEnv twicePine)\<lparr>randomUUID := (\<lambda>i. ''other'')\<rparr>) 1 [pineReport]
   \<and> map rid (bucketAndVote (exEnv twicePine) 1 [pineReport]) = [''id-0'']
   \<and> map rid (bucketAndVote ((exEnv twicePine)\<lparr>randomUUID := (\<lambda>i. ''other'')\<rparr>) 1 [pineReport])
       = [''other'']"
proof -
  have 1: "map rid (bucketAndVote (exEnv twicePine) 1 [pineReport]) = [''id-0'']"
    by code_simp
  have 2: "map rid (bucketAndVote ((exEnv twicePine)\<lparr>randomUUID := (\<lambda>i. ''other'')\<rparr>) 1 [pineReport])
       = [''other'']"
    by code_simp
  have "[''id-0''] \<noteq> [''other'']" by simp
  with 1 2 have "bucketAndVote (exEnv twicePine) 1 [pineReport]
     \<noteq> bucketAndVote ((exEnv twicePine)\<lparr>randomUUID := (\<lambda>i. ''other'')\<rparr>) 1 [pineReport]"
    by metis
  with 1 2 show ?thesis by blast
qed


subsection \<open>The generation loop\<close>

lemma trim_Nil: "trim [] = []"
  by (simp add: trim_def)

lemma collectRuns_Reply:
  assumes "generate env i = Reply r"
  shows "collectRuns env i (Suc n) runs =
     collectRuns env (Suc i) n
       (runs @ (case salvage env i of None \<Rightarrow> [] | Some run \<Rightarrow> [run]))"
proof -
  have rt: "replyText (Reply r) = trim (case r of None \<Rightarrow> [] | Some s \<Rightarrow> s)"
    by (cases r) (simp_all add: replyText_def trim_Nil)
  show ?thesis
  proof (cases "replyText (Reply r) = []")
    case True
    with assms rt show ?thesis by (simp add: salvage_def Let_def)
  next
    case False
    with assms rt show ?thesis
      by (cases "parse env (replyText (Reply r))") (simp_all add: salvage_def Let_def)
  qed
qed

lemma map_filter_salvage_Cons:
  "List.map_filter (salvage env) (i # is) =
     (case salvage env i of None \<Rightarrow> [] | Some run \<Rightarrow> [run]) @ List.map_filter (salvage env) is"
  by (simp add: List.map_filter_simps split: option.splits)

lemma collectRuns_all_replies:
  "(\<And>j. j < n \<Longrightarrow> isReply (generate env (i + j))) \<Longrightarrow>
   collectRuns env i n runs = Inr (runs @ List.map_filter (salvage env) [i..<i + n])"
proof (induction n arbitrary: i runs)
  case 0
  then show ?case by (simp add: List.map_filter_simps)
next
  case (Suc n)
  from Suc.prems [of 0] obtain r where r: "generate env i = Reply r"
    by (cases "generate env i") (simp_all add: isReply_def)
  have "\<And>j. j < n \<Longrightarrow> isReply (generate env (Suc i + j))"
    using Suc.prems [of "Suc _"] by simp
  then have IH: "collectRuns env (Suc i) n rs
      = Inr (rs @ List.map_filter (salvage env) [Suc i..<Suc i + n])" for rs
    by (rule Suc.IH)
  have upt: "[i..<i + Suc n] = i # [Suc i..<Suc i + n]"
    by (simp add: upt_conv_Cons)
  show ?case
    unfolding collectRuns_Reply [OF r] IH upt map_filter_salvage_Cons by simp
qed

lemma collectRuns_Inr:
  "collectRuns env i n runs = Inr rs \<Longrightarrow>
   rs = runs @ List.map_filter (salvage env) [i..<i + n]"
proof (induction n arbitrary: i runs)
  case 0
  then show ?case by (simp add: List.map_filter_simps)
next
  case (Suc n)
  from Suc.prems obtain r where r: "generate env i = Reply r"
    by (cases "generate env i") simp_all
  have upt: "[i..<i + Suc n] = i # [Suc i..<Suc i + n]"
    by (simp add: upt_conv_Cons)
  from Suc.prems have "collectRuns env (Suc i) n
       (runs @ (case salvage env i of None \<Rightarrow> [] | Some run \<Rightarrow> [run])) = Inr rs"
    by (simp only: collectRuns_Reply [OF r])
  then have "rs = (runs @ (case salvage env i of None \<Rightarrow> [] | Some run \<Rightarrow> [run]))
       @ List.map_filter (salvage env) [Suc i..<Suc i + n]"
    by (rule Suc.IH)
  then show ?case unfolding upt map_filter_salvage_Cons by simp
qed

lemma collectRuns_NotOk:
  "j < n \<Longrightarrow> (\<And>l. l < j \<Longrightarrow> isReply (generate env (i + l))) \<Longrightarrow>
   generate env (i + j) = NotOk st txt \<Longrightarrow>
   collectRuns env i n runs = Inl (Response 503 (OllamaError st txt))"
proof (induction j arbitrary: i n runs)
  case 0
  then obtain m where "n = Suc m" by (cases n) simp_all
  with 0 show ?case by simp
next
  case (Suc j)
  then obtain m where n: "n = Suc m" and jm: "j < m" by (cases n) simp_all
  from Suc.prems(2) [of 0] obtain r where r: "generate env i = Reply r"
    by (cases "generate env i") (simp_all add: isReply_def)
  have "\<And>l. l < j \<Longrightarrow> isReply (generate env (Suc i + l))"
    using Suc.prems(2) [of "Suc _"] by simp
  moreover have "generate env (Suc i + j) = NotOk st txt" using Suc.prems(3) by simp
  ultimately have "collectRuns env (Suc i) m rs = Inl (Response 503 (OllamaError st txt))" for rs
    using jm by (intro Suc.IH)
  then show ?case unfolding n collectRuns_Reply [OF r] by simp
qed

lemma length_map_filter: "length (List.map_filter f xs) = length (filter (\<lambda>x. f x \<noteq> None) xs)"
  by (induction xs) (simp_all add: List.map_filter_simps split: option.splits)

lemma denominator_max: "denominator runs = max 1 (length runs)"
  by (cases runs) (simp_all add: denominator_def)

lemma denominator_salvaged:
  "denominator (List.map_filter (salvage env) [0..<n]) = max 1 (salvagedCount env n)"
  by (simp only: denominator_max salvagedCount_def length_map_filter)

lemma POST_unfold:
  assumes "text_field req = Some t" and "trim t \<noteq> []" and "ping_ok env"
  shows "POST env req =
     (case collectRuns env 0 (clampSamples (samples req)) [] of
        Inl out \<Rightarrow> out
      | Inr runs \<Rightarrow>
          Response 200
            (Reports (mergeAll (randomUUID env) (denominator runs) (fillBuckets env runs))))"
  using assms by (simp add: POST_def Let_def)

lemma POST_200:
  assumes "POST env req = Response 200 (Reports ms)"
  shows "\<exists>runs. collectRuns env 0 (clampSamples (samples req)) [] = Inr runs
     \<and> ms = mergeAll (randomUUID env) (denominator runs) (fillBuckets env runs)"
proof -
  have notInl: "collectRuns env i n runs \<noteq> Inl (Response 200 (Reports ms))" for i n runs
    by (induction env i n runs rule: collectRuns.induct)
       (auto simp: Let_def split: Attempt.splits option.splits)
  from assms show ?thesis
    using notInl [of 0 "clampSamples (samples req)" "[]"]
    by (auto simp: POST_def Let_def split: if_splits sum.splits)
qed


lemma collectRuns_rejected:
  "j < n \<Longrightarrow> (\<And>l. l < j \<Longrightarrow> isReply (generate env (i + l))) \<Longrightarrow>
   generate env (i + j) = FetchRejected \<or> generate env (i + j) = BodyRejected \<Longrightarrow>
   collectRuns env i n runs = Inl Uncaught"
proof (induction j arbitrary: i n runs)
  case 0
  then obtain m where "n = Suc m" by (cases n) simp_all
  with 0 show ?case by auto
next
  case (Suc j)
  then obtain m where n: "n = Suc m" and jm: "j < m" by (cases n) simp_all
  from Suc.prems(2) [of 0] obtain r where r: "generate env i = Reply r"
    by (cases "generate env i") (simp_all add: isReply_def)
  have "\<And>l. l < j \<Longrightarrow> isReply (generate env (Suc i + l))"
    using Suc.prems(2) [of "Suc _"] by simp
  moreover have "generate env (Suc i + j) = FetchRejected \<or> generate env (Suc i + j) = BodyRejected"
    using Suc.prems(3) by simp
  ultimately have "collectRuns env (Suc i) m rs = Inl Uncaught" for rs
    using jm by (intro Suc.IH)
  then show ?case unfolding n collectRuns_Reply [OF r] by simp
qed

subsection \<open>The handler\<close>

lemma example_prose_then_pine:
  "clampSamples (samples exRequest) = 2"
  "answeredCount (exEnv proseThenPine) 2 = 2"
  "salvagedCount (exEnv proseThenPine) 2 = 1"
  "List.map_filter (salvage (exEnv proseThenPine)) [0..<2] = [[pineReport]]"
  "collectRuns (exEnv proseThenPine) 0 2 [] = Inr [[pineReport]]"
  "denominator [[pineReport]] = 1"
  by code_simp+

lemma example_request:
  "text_field exRequest = Some ''Tree down on Pine St, one person hurt''"
  "trim ''Tree down on Pine St, one person hurt'' \<noteq> []"
  "ping_ok (exEnv gen)"
  by (simp add: exRequest_def, code_simp, simp add: exEnv_def)

lemma example_prose_then_pine_POST:
  "POST (exEnv proseThenPine) exRequest =
     Response 200 (Reports
       [\<lparr>location_text = Some ''Pine St'', time_iso = None, severity = Some ''high'',
         needs = [''medical''], dedupe_key = None, rnotes = None, rid = ''id-0'',
         confidence_overall = Num 1,
         confields = \<lparr>cf_location_text = Num 1, cf_time_iso = Num 1, cf_severity = Num 1,
                      cf_needs = Num 1\<rparr>\<rparr>])"
  by code_simp

lemma example_denominator_two:
  "mergeAll (randomUUID (exEnv proseThenPine)) 2 (fillBuckets (exEnv proseThenPine) [[pineReport]]) =
       [\<lparr>location_text = Some ''Pine St'', time_iso = None, severity = Some ''high'',
         needs = [''medical''], dedupe_key = None, rnotes = None, rid = ''id-0'',
         confidence_overall = Num (1 / 2),
         confields = \<lparr>cf_location_text = Num (1 / 2), cf_time_iso = Num (1 / 2),
                      cf_severity = Num (1 / 2), cf_needs = Num (1 / 2)\<rparr>\<rparr>]"
  by code_simp

text \<open>
  Claim C1, amended. When the handler answers with merged reports, the denominator \<open>k\<close> of
  every bucket is the number of generation attempts whose text was salvaged into a run, or 1
  when no attempt was: the merged reports are those of the buckets filled from the salvaged
  runs, merged with that \<open>k\<close>. The confidences of location, time and severity are the count
  of the majority value divided by \<open>k\<close>, and the confidence of the needs is the one that
  \<open>needsConsensus\<close> computes for \<open>k\<close>, each rounded to three decimals.
\<close>

theorem POST_denominator_salvaged_runs:
  "(POST env req = Response 200 (Reports ms) \<longrightarrow>
      ms = mergeAll (randomUUID env) (max 1 (salvagedCount env (clampSamples (samples req))))
             (fillBuckets env (List.map_filter (salvage env) [0..<clampSamples (samples req)])))
   \<and> cf_location_text (confields (mergeBucket u k b))
       = toFixed3 (fdiv (of_nat (snd (majority (locs b)))) (of_nat k))
   \<and> cf_time_iso (confields (mergeBucket u k b))
       = toFixed3 (fdiv (of_nat (snd (majority (times b)))) (of_nat k))
   \<and> cf_severity (confields (mergeBucket u k b))
       = toFixed3 (fdiv (of_nat (snd (majority (sevs b)))) (of_nat k))
   \<and> cf_needs (confields (mergeBucket u k b)) = toFixed3 (snd (needsConsensus (bneeds b) k))"
proof -
  have "ms = mergeAll (randomUUID env) (max 1 (salvagedCount env (clampSamples (samples req))))
             (fillBuckets env (List.map_filter (salvage env) [0..<clampSamples (samples req)]))"
    if "POST env req = Response 200 (Reports ms)"
  proof -
    from POST_200 [OF that] obtain runs
      where runs: "collectRuns env 0 (clampSamples (samples req)) [] = Inr runs"
        and ms: "ms = mergeAll (randomUUID env) (denominator runs) (fillBuckets env runs)"
      by blast
    from collectRuns_Inr [OF runs]
    have "runs = List.map_filter (salvage env) [0..<clampSamples (samples req)]" by simp
    with ms show ?thesis by (simp only: denominator_salvaged)
  qed
  then show ?thesis by (simp add: mergeBucket_def Let_def)
qed

theorem POST_denominator_salvaged_runs_witness:
  "POST (exEnv proseThenPine) exRequest =
     Response 200 (Reports
       [\<lparr>location_text = Some ''Pine St'', time_iso = None, severity = Some ''high'',
         needs = [''medical''], dedupe_key = None, rnotes = None, rid = ''id-0'',
         confidence_overall = Num 1,
         confields = \<lparr>cf_location_text = Num 1, cf_time_iso = Num 1, cf_severity = Num 1,
                      cf_needs = Num 1\<rparr>\<rparr>])
   \<and> [\<lparr>location_text = Some ''Pine St'', time_iso = None, severity = Some ''high'',
         needs = [''medical''], dedupe_key = None, rnotes = None, rid = ''id-0'',
         confidence_overall = Num 1,
         confields = \<lparr>cf_location_text = Num 1, cf_time_iso = Num 1, cf_severity = Num 1,
                      cf_needs = Num 1\<rparr>\<rparr>]
     = mergeAll (randomUUID (exEnv proseThenPine))
         (max 1 (salvagedCount (exEnv proseThenPine) (clampSamples (samples exRequest))))
         (fillBuckets (exEnv proseThenPine)
            (List.map_filter (salvage (exEnv proseThenPine)) [0..<clampSamples (samples exRequest)]))
   \<and> salvagedCount (exEnv proseThenPine) (clampSamples (samples exRequest)) = 1"
  using POST_denominator_salvaged_runs [where env = "exEnv proseThenPine" and req = exRequest]
    example_prose_then_pine_POST example_prose_then_pine(1,3)
  by (simp only:)

text \<open>
  Claim C1 as stated fails. Of two attempts the first answers with prose and the second
  with a valid report: two attempts returned text, one was salvaged, and every confidence of
  the merged report is 1, where the denominator 2 would give 1/2.
\<close>

theorem POST_denominator_counterexample:
  "answeredCount (exEnv proseThenPine) (clampSamples (samples exRequest)) = 2
   \<and> salvagedCount (exEnv proseThenPine) (clampSamples (samples exRequest)) = 1
   \<and> POST (exEnv proseThenPine) exRequest =
     Response 200 (Reports
       [\<lparr>location_text = Some ''Pine St'', time_iso = None, severity = Some ''high'',
         needs = [''medical''], dedupe_key = None, rnotes = None, rid = ''id-0'',
         confidence_overall = Num 1,
         confields = \<lparr>cf_location_text = Num 1, cf_time_iso = Num 1, cf_severity = Num 1,
                      cf_needs = Num 1\<rparr>\<rparr>])
   \<and> mergeAll (randomUUID (exEnv proseThenPine)) 2
       (fillBuckets (exEnv proseThenPine)
          (List.map_filter (salvage (exEnv proseThenPine)) [0..<clampSamples (samples exRequest)])) =
       [\<lparr>location_text = Some ''Pine St'', time_iso = None, severity = Some ''high'',
         needs = [''medical''], dedupe_key = None, rnotes = None, rid = ''id-0'',
         confidence_overall = Num (1 / 2),
         confields = \<lparr>cf_location_text = Num (1 / 2), cf_time_iso = Num (1 / 2),
                      cf_severity = Num (1 / 2), cf_needs = Num (1 / 2)\<rparr>\<rparr>]
   \<and> POST (exEnv proseThenPine) exRequest \<noteq>
       Response 200 (Reports (mergeAll (randomUUID (exEnv proseThenPine))
         (answeredCount (exEnv proseThenPine) (clampSamples (samples exRequest)))
         (fillBuckets (exEnv proseThenPine)
            (List.map_filter (salvage (exEnv proseThenPine))
               [0..<clampSamples (samples exRequest)]))))"
  unfolding example_prose_then_pine example_prose_then_pine_POST example_denominator_two
  by simp

subsection \<open>Confidences above one\<close>

text \<open>
  Claim C2 fails on the code. Both attempts answer with the same incident listed twice under
  one dedupe key, so the one bucket holds four candidates while \<open>k\<close> is 2: the confidences of
  location, time and severity are 2 and the overall confidence is 1.75. Only the confidence
  of the needs is capped at 1, by \<open>needsConsensus\<close>. A need named \<open>constructor\<close> makes the
  risk score NaN.
\<close>

theorem POST_confidence_above_one:
  "POST (exEnv twicePine) exRequest =
     Response 200 (Reports
       [\<lparr>location_text = Some ''Pine St'', time_iso = None, severity = Some ''high'',
         needs = [''medical''], dedupe_key = Some ''pine'', rnotes = None, rid = ''id-0'',
         confidence_overall = Num (7 / 4),
         confields = \<lparr>cf_location_text = Num 2, cf_time_iso = Num 2, cf_severity = Num 2,
                      cf_needs = Num 1\<rparr>\<rparr>])
   \<and> computeRiskScore hostSort now dp (Some Critical) [''constructor''] None = NaN"
proof -
  have "computeRiskScore hostSort now dp (Some Critical) [''constructor''] None = NaN"
    by code_simp
  moreover have "POST (exEnv twicePine) exRequest =
     Response 200 (Reports
       [\<lparr>location_text = Some ''Pine St'', time_iso = None, severity = Some ''high'',
         needs = [''medical''], dedupe_key = Some ''pine'', rnotes = None, rid = ''id-0'',
         confidence_overall = Num (7 / 4),
         confields = \<lparr>cf_location_text = Num 2, cf_time_iso = Num 2, cf_severity = Num 2,
                      cf_needs = Num 1\<rparr>\<rparr>])"
    by code_simp
  ultimately show ?thesis by (rule conjI [rotated])
qed

subsection \<open>Failed attempts\<close>

lemma example_failures:
  "List.map_filter (salvage (exEnv pineThenFailure)) [0..<1] = [[pineReport]]"
  "salvage (exEnv pineThenFailure) 0 = Some [pineReport]"
  "salvage (exEnv pineThenRejected) 0 = Some [pineReport]"
  by code_simp+

lemma example_generate:
  "isReply (generate (exEnv proseThenPine) i)"
  "generate (exEnv pineThenFailure) 0 = Reply (Some pineJson)"
  "generate (exEnv pineThenFailure) 1 = NotOk 500 ''overloaded''"
  "generate (exEnv pineThenRejected) 0 = Reply (Some pineJson)"
  "generate (exEnv pineThenRejected) 1 = FetchRejected"
  by (simp_all add: exEnv_def proseThenPine_def pineThenFailure_def pineThenRejected_def
        isReply_def)

text \<open>
  Claim C3, amended. For a request with a text and a reachable model: when every generation
  request is answered with status ok and a readable body, the handler answers 200 with the
  merge of the runs that were salvaged, and an attempt whose text is empty or does not parse
  is left out. When a generation request is answered with a status that is not ok, the
  handler answers 503 with that status and text, whatever the earlier attempts gave. When
  the request itself is rejected or the body cannot be read, the exception leaves the
  handler.
\<close>

theorem POST_attempt_failures:
  "(text_field req = Some t \<and> trim t \<noteq> [] \<and> ping_ok env
      \<and> (\<forall>i < clampSamples (samples req). isReply (generate env i))
     \<longrightarrow> POST env req =
          Response 200 (Reports (mergeAll (randomUUID env)
            (denominator (List.map_filter (salvage env) [0..<clampSamples (samples req)]))
            (fillBuckets env (List.map_filter (salvage env) [0..<clampSamples (samples req)])))))
   \<and> (text_field req = Some t \<and> trim t \<noteq> [] \<and> ping_ok env
      \<and> j < clampSamples (samples req) \<and> (\<forall>i < j. isReply (generate env i))
      \<and> generate env j = NotOk st msg
     \<longrightarrow> POST env req = Response 503 (OllamaError st msg))
   \<and> (text_field req = Some t \<and> trim t \<noteq> [] \<and> ping_ok env
      \<and> j < clampSamples (samples req) \<and> (\<forall>i < j. isReply (generate env i))
      \<and> (generate env j = FetchRejected \<or> generate env j = BodyRejected)
     \<longrightarrow> POST env req = Uncaught)"
proof (intro conjI impI)
  assume a: "text_field req = Some t \<and> trim t \<noteq> [] \<and> ping_ok env
      \<and> (\<forall>i < clampSamples (samples req). isReply (generate env i))"
  then have "collectRuns env 0 (clampSamples (samples req)) []
      = Inr ([] @ List.map_filter (salvage env) [0..<0 + clampSamples (samples req)])"
    by (intro collectRuns_all_replies) simp
  with a show "POST env req =
          Response 200 (Reports (mergeAll (randomUUID env)
            (denominator (List.map_filter (salvage env) [0..<clampSamples (samples req)]))
            (fillBuckets env (List.map_filter (salvage env) [0..<clampSamples (samples req)]))))"
    by (simp add: POST_unfold [of req t env])
next
  assume a: "text_field req = Some t \<and> trim t \<noteq> [] \<and> ping_ok env
      \<and> j < clampSamples (samples req) \<and> (\<forall>i < j. isReply (generate env i))
      \<and> generate env j = NotOk st msg"
  then have "collectRuns env 0 (clampSamples (samples req)) []
      = Inl (Response 503 (OllamaError st msg))"
    by (intro collectRuns_NotOk [where j = j]) simp_all
  with a show "POST env req = Response 503 (OllamaError st msg)"
    by (simp add: POST_unfold [of req t env])
next
  assume a: "text_field req = Some t \<and> trim t \<noteq> [] \<and> ping_ok env
      \<and> j < clampSamples (samples req) \<and> (\<forall>i < j. isReply (generate env i))
      \<and> (generate env j = FetchRejected \<or> generate env j = BodyRejected)"
  then have "collectRuns env 0 (clampSamples (samples req)) [] = Inl Uncaught"
    by (intro collectRuns_rejected [where j = j]) simp_all
  with a show "POST env req = Uncaught"
    by (simp add: POST_unfold [of req t env])
qed

theorem POST_attempt_failures_witness:
  "clampSamples (samples exRequest) = 2
   \<and> List.map_filter (salvage (exEnv proseThenPine)) [0..<2] = [[pineReport]]
   \<and> POST (exEnv proseThenPine) exRequest =
       Response 200 (Reports (mergeAll (randomUUID (exEnv proseThenPine)) 1
         (fillBuckets (exEnv proseThenPine) [[pineReport]])))
   \<and> generate (exEnv pineThenFailure) 0 = Reply (Some pineJson)
   \<and> generate (exEnv pineThenFailure) 1 = NotOk 500 ''overloaded''
   \<and> POST (exEnv pineThenFailure) exRequest = Response 503 (OllamaError 500 ''overloaded'')
   \<and> generate (exEnv pineThenRejected) 0 = Reply (Some pineJson)
   \<and> generate (exEnv pineThenRejected) 1 = FetchRejected
   \<and> POST (exEnv pineThenRejected) exRequest = Uncaught"
proof -
  have lt: "i = 0" if "i < (1::nat)" for i using that by simp
  have r1: "\<forall>i<1. isReply (generate (exEnv pineThenFailure) i)"
    by (auto dest!: lt simp: example_generate isReply_def)
  have r2: "\<forall>i<1. isReply (generate (exEnv pineThenRejected) i)"
    by (auto dest!: lt simp: example_generate isReply_def)
  have "POST (exEnv proseThenPine) exRequest =
       Response 200 (Reports (mergeAll (randomUUID (exEnv proseThenPine)) 1
         (fillBuckets (exEnv proseThenPine) [[pineReport]])))"
    using POST_attempt_failures [where env = "exEnv proseThenPine" and req = exRequest
        and t = "''Tree down on Pine St, one person hurt''"]
      example_request example_generate(1)
    by (simp add: example_prose_then_pine)
  moreover have "POST (exEnv pineThenFailure) exRequest
      = Response 503 (OllamaError 500 ''overloaded'')"
    using POST_attempt_failures [where env = "exEnv pineThenFailure" and req = exRequest
        and t = "''Tree down on Pine St, one person hurt''" and j = 1
        and st = 500 and msg = "''overloaded''"]
      example_request r1 example_generate(3)
    by (simp add: example_prose_then_pine(1))
  moreover have "POST (exEnv pineThenRejected) exRequest = Uncaught"
    using POST_attempt_failures [where env = "exEnv pineThenRejected" and req = exRequest
        and t = "''Tree down on Pine St, one person hurt''" and j = 1]
      example_request r2 example_generate(5)
    by (simp add: example_prose_then_pine(1))
  ultimately show ?thesis
    using example_prose_then_pine(1,4) example_generate(2-5) by blast
qed

text \<open>
  Claim C3 as stated fails. The first attempt gives a valid report and the second request is
  answered with status 500: the handler answers 503 and the report of the first attempt is
  lost. When the second request is rejected instead, the exception is not caught.
\<close>

theorem POST_attempt_failure_counterexample:
  "salvage (exEnv pineThenFailure) 0 = Some [pineReport]
   \<and> generate (exEnv pineThenFailure) 1 = NotOk 500 ''overloaded''
   \<and> POST (exEnv pineThenFailure) exRequest = Response 503 (OllamaError 500 ''overloaded'')
   \<and> salvage (exEnv pineThenRejected) 0 = Some [pineReport]
   \<and> generate (exEnv pineThenRejected) 1 = FetchRejected
   \<and> POST (exEnv pineThenRejected) exRequest = Uncaught"
proof -
  have "POST (exEnv pineThenFailure) exRequest = Response 503 (OllamaError 500 ''overloaded'')"
    by code_simp
  moreover have "POST (exEnv pineThenRejected) exRequest = Uncaught"
    by code_simp
  ultimately show ?thesis
    using example_failures(2,3) example_generate(3,5) by blast
qed


end
